theory Spec2Isabelle
  imports Main "HOL-Library.Word"
begin

section \<open>Data model (sendkey.go)\<close>

text \<open>
  Go strings and byte slices are byte sequences: both are \<open>char list\<close> here, so the
  conversions \<^verbatim>\<open>[]byte(s)\<close> and \<^verbatim>\<open>string(b)\<close> are the identity. A \<^verbatim>\<open>uuid.UUID\<close> is a
  \<^verbatim>\<open>[16]byte\<close> array, modelled as a 128-bit word; \<^verbatim>\<open>uuid.Nil\<close> is the all-zero array.
  A \<^verbatim>\<open>time.Time\<close> is an instant, counted in nanoseconds as an unbounded integer, and a
  \<^verbatim>\<open>time.Duration\<close> is a number of nanoseconds (the saturation of \<^verbatim>\<open>Time.Add\<close> at the
  ends of the representable range is not modelled).
\<close>

type_synonym bytes = "char list"

type_synonym uuid = "128 word"

type_synonym time = int

type_synonym duration = int

definition uuid_Nil :: uuid where
  "uuid_Nil = 0"

record Entry =
  ID :: uuid
  Name :: string
  SentByUserID :: uuid
  SentToEmail :: string
  Nonce :: bytes
  Value :: bytes
  InvalidAttempts :: int
  CreatedAtUTC :: time
  ExpiresAtUTC :: time

record ClaimedEntry =
  ce_EntryID :: uuid
  ce_Name :: string
  ce_SentByUserID :: uuid
  ce_SentToEmail :: string
  ce_ClaimedAtUTC :: time

record ExpiredEntry =
  ee_EntryID :: uuid
  ee_Name :: string
  ee_SentByUserID :: uuid
  ee_SentToEmail :: string
  ee_TooManyAttempts :: bool
  ee_ExpiredAtUTC :: time

section \<open>The world the services run in\<close>

text \<open>
  The three tables of the schema that the entry service touches are lists of rows, in
  insertion order. Standard output is the list of lines printed so far. The wall clock
  is an arbitrary sequence of instants: the \<open>n\<close>-th call of \<^verbatim>\<open>time.Now()\<close> returns
  \<open>clock n\<close>, and \<open>ticks\<close> counts the calls made so far.
\<close>

record world =
  entries :: "Entry list"
  claimed_entries :: "ClaimedEntry list"
  expired_entries :: "ExpiredEntry list"
  stdout :: "string list"
  clock :: "nat \<Rightarrow> time"
  ticks :: nat

datatype error =
    ErrDuplicateEntry
  | ErrNoRows
  | KeySizeError nat
  | ErrOpen
  | Panic string

definition time_Now :: "world \<Rightarrow> time \<times> world" where
  "time_Now w = (clock w (ticks w), w\<lparr>ticks := Suc (ticks w)\<rparr>)"

section \<open>Library functions used by the entry service\<close>

text \<open>
  \<^verbatim>\<open>hex.EncodeToString\<close>: two lower-case digits per byte, the high nibble first.
\<close>

definition hextable :: string where
  "hextable = ''0123456789abcdef''"

definition hex_byte :: "char \<Rightarrow> string" where
  "hex_byte b = [hextable ! ((of_char b :: nat) div 16), hextable ! ((of_char b :: nat) mod 16)]"

definition hex_EncodeToString :: "bytes \<Rightarrow> string" where
  "hex_EncodeToString src = concat (map hex_byte src)"

text \<open>
  \<^verbatim>\<open>hex.DecodeString\<close>, which the service never calls: it is here to say what the
  hex decoding of a presented nonce is. It accepts digits in either case and fails on an
  odd length or on any other character.
\<close>

definition fromHexChar :: "char \<Rightarrow> nat option" where
  "fromHexChar c =
     (let n = (of_char c :: nat) in
      if 48 \<le> n \<and> n \<le> 57 then Some (n - 48)
      else if 97 \<le> n \<and> n \<le> 102 then Some (n - 97 + 10)
      else if 65 \<le> n \<and> n \<le> 70 then Some (n - 65 + 10)
      else None)"

fun hex_DecodeString :: "string \<Rightarrow> bytes option" where
  "hex_DecodeString [] = Some []"
| "hex_DecodeString [a] = None"
| "hex_DecodeString (a # b # rest) =
     (case (fromHexChar a, fromHexChar b) of
        (Some x, Some y) \<Rightarrow>
          (case hex_DecodeString rest of
             Some bs \<Rightarrow> Some (char_of (16 * x + y) # bs)
           | None \<Rightarrow> None)
      | _ \<Rightarrow> None)"

text \<open>
  \<^verbatim>\<open>strings.TrimSpace\<close> removes leading and trailing white space as Unicode defines it,
  reading the string as UTF-8. The white-space code points are the six ASCII ones
  (tab, line feed, vertical tab, form feed, carriage return, space), U+0085 and U+00A0
  (two bytes each in UTF-8), and U+1680, U+2000 to U+200A, U+2028, U+2029, U+202F,
  U+205F and U+3000 (three bytes each). The leading runes are removed first and the
  trailing runes of the rest next, as \<^verbatim>\<open>strings.TrimFunc\<close> does.
\<close>

definition asciiSpace :: "char \<Rightarrow> bool" where
  "asciiSpace c \<longleftrightarrow> c \<in> {CHR 0x09, CHR 0x0A, CHR 0x0B, CHR 0x0C, CHR 0x0D, CHR 0x20}"

definition space2 :: "char \<Rightarrow> char \<Rightarrow> bool" where
  "space2 a b \<longleftrightarrow> a = CHR 0xC2 \<and> (b = CHR 0x85 \<or> b = CHR 0xA0)"

definition space3 :: "char \<Rightarrow> char \<Rightarrow> char \<Rightarrow> bool" where
  "space3 a b c \<longleftrightarrow>
     (a = CHR 0xE1 \<and> b = CHR 0x9A \<and> c = CHR 0x80) \<or>
     (a = CHR 0xE2 \<and> b = CHR 0x80 \<and>
        ((0x80 \<le> (of_char c :: nat) \<and> (of_char c :: nat) \<le> 0x8A) \<or>
         c = CHR 0xA8 \<or> c = CHR 0xA9 \<or> c = CHR 0xAF)) \<or>
     (a = CHR 0xE2 \<and> b = CHR 0x81 \<and> c = CHR 0x9F) \<or>
     (a = CHR 0xE3 \<and> b = CHR 0x80 \<and> c = CHR 0x80)"

fun trimLeftSpace :: "string \<Rightarrow> string" where
  "trimLeftSpace (a # b # c # rest) =
     (if asciiSpace a then trimLeftSpace (b # c # rest)
      else if space2 a b then trimLeftSpace (c # rest)
      else if space3 a b c then trimLeftSpace rest
      else a # b # c # rest)"
| "trimLeftSpace [a, b] =
     (if asciiSpace a then trimLeftSpace [b]
      else if space2 a b then []
      else [a, b])"
| "trimLeftSpace [a] = (if asciiSpace a then [] else [a])"
| "trimLeftSpace [] = []"

text \<open>The same scan from the end, on the reversed string: \<open>a\<close> is the last byte.\<close>

fun trimRightSpaceRev :: "string \<Rightarrow> string" where
  "trimRightSpaceRev (a # b # c # rest) =
     (if asciiSpace a then trimRightSpaceRev (b # c # rest)
      else if space2 b a then trimRightSpaceRev (c # rest)
      else if space3 c b a then trimRightSpaceRev rest
      else a # b # c # rest)"
| "trimRightSpaceRev [a, b] =
     (if asciiSpace a then trimRightSpaceRev [b]
      else if space2 b a then []
      else [a, b])"
| "trimRightSpaceRev [a] = (if asciiSpace a then [] else [a])"
| "trimRightSpaceRev [] = []"

definition TrimSpace :: "string \<Rightarrow> string" where
  "TrimSpace s = rev (trimRightSpaceRev (rev (trimLeftSpace s)))"

text \<open>
  The cipher primitives of the Go standard library are parameters of the model:
  \<^verbatim>\<open>sha256.Sum256\<close>, and the sealing and opening of AES-GCM under a key, a nonce and no
  associated data (\<open>gcm_Open\<close> returns \<open>None\<close> when authentication fails).
\<close>

record crypto =
  sha256_Sum256 :: "bytes \<Rightarrow> bytes"
  gcm_Seal :: "bytes \<Rightarrow> bytes \<Rightarrow> bytes \<Rightarrow> bytes"
  gcm_Open :: "bytes \<Rightarrow> bytes \<Rightarrow> bytes \<Rightarrow> bytes option"

section \<open>The entry store (internal/mysql/entries.go)\<close>

text \<open>
  Each statement is modelled by its effect on the rows of its table. The primary keys of
  the schema are enforced: an \<^verbatim>\<open>INSERT\<close> of an id the table already holds fails and
  leaves the table as it was. A row keeps the values it was inserted with: the other
  failures of a database (a lost connection, a value longer than its column, a missing
  user row) and the rounding of an instant to the precision of its column are not
  modelled.
\<close>

definition store_Create :: "Entry \<Rightarrow> world \<Rightarrow> (error + unit) \<times> world" where
  "store_Create e w =
     (if \<exists>r \<in> set (entries w). ID r = ID e then (Inl ErrDuplicateEntry, w)
      else (Inr (), w\<lparr>entries := entries w @ [e]\<rparr>))"

definition store_Find :: "uuid \<Rightarrow> world \<Rightarrow> error + Entry option" where
  "store_Find eid w =
     (case find (\<lambda>r. ID r = eid) (entries w) of
        None \<Rightarrow> Inr None
      | Some r \<Rightarrow> Inr (Some \<lparr>ID = eid, Name = Name r, SentByUserID = SentByUserID r,
          SentToEmail = SentToEmail r, Nonce = Nonce r, Value = Value r,
          InvalidAttempts = InvalidAttempts r, CreatedAtUTC = CreatedAtUTC r,
          ExpiresAtUTC = ExpiresAtUTC r\<rparr>))"

text \<open>
  \<^verbatim>\<open>ORDER BY createdAtUtc\<close>: the rows of the user in ascending creation time; rows with
  equal creation times are kept in insertion order (SQL leaves their order open).
\<close>

definition store_FindByUserID :: "uuid \<Rightarrow> world \<Rightarrow> error + Entry list" where
  "store_FindByUserID userID w =
     Inr (map (\<lambda>r. \<lparr>ID = ID r, Name = Name r, SentByUserID = userID,
          SentToEmail = SentToEmail r, Nonce = Nonce r, Value = Value r,
          InvalidAttempts = InvalidAttempts r, CreatedAtUTC = CreatedAtUTC r,
          ExpiresAtUTC = ExpiresAtUTC r\<rparr>)
        (sort_key CreatedAtUTC (filter (\<lambda>r. SentByUserID r = userID) (entries w))))"

definition store_Delete :: "uuid \<Rightarrow> world \<Rightarrow> (error + unit) \<times> world" where
  "store_Delete eid w = (Inr (), w\<lparr>entries := filter (\<lambda>r. ID r \<noteq> eid) (entries w)\<rparr>)"

text \<open>
  The \<^verbatim>\<open>UPDATE\<close> touches no row when the id is absent and succeeds all the same; the
  \<^verbatim>\<open>SELECT\<close> that follows then finds no row, and \<^verbatim>\<open>Scan\<close> returns \<^verbatim>\<open>sql.ErrNoRows\<close>.
\<close>

definition store_IncrementInvalidAttempts :: "uuid \<Rightarrow> world \<Rightarrow> (error + int) \<times> world" where
  "store_IncrementInvalidAttempts eid w =
     (let w' = w\<lparr>entries :=
                 map (\<lambda>r. if ID r = eid then r\<lparr>InvalidAttempts := InvalidAttempts r + 1\<rparr> else r)
                   (entries w)\<rparr>
      in case find (\<lambda>r. ID r = eid) (entries w') of
           None \<Rightarrow> (Inl ErrNoRows, w')
         | Some r \<Rightarrow> (Inr (InvalidAttempts r), w'))"

definition store_CreateClaimedEntry :: "ClaimedEntry \<Rightarrow> world \<Rightarrow> (error + unit) \<times> world" where
  "store_CreateClaimedEntry ce w =
     (if \<exists>r \<in> set (claimed_entries w). ce_EntryID r = ce_EntryID ce
      then (Inl ErrDuplicateEntry, w)
      else (Inr (), w\<lparr>claimed_entries := claimed_entries w @ [ce]\<rparr>))"

definition store_CreateExpiredEntry :: "ExpiredEntry \<Rightarrow> world \<Rightarrow> (error + unit) \<times> world" where
  "store_CreateExpiredEntry ee w =
     (if \<exists>r \<in> set (expired_entries w). ee_EntryID r = ee_EntryID ee
      then (Inl ErrDuplicateEntry, w)
      else (Inr (), w\<lparr>expired_entries := expired_entries w @ [ee]\<rparr>))"

section \<open>The entry service (internal/app, EntryService)\<close>

record EntryService =
  aesKey :: bytes
  maxAttempts :: int

record CreateEntryRequest =
  req_Name :: string
  req_SenderID :: uuid
  req_SendToEmail :: string
  req_Value :: string
  req_Secret :: string
  req_Duration :: duration

record CreateEntryResponse =
  cr_Success :: bool
  cr_Errors :: "string list"
  cr_Entry :: "Entry option"

record DecryptEntryRequest =
  dq_ID :: uuid
  dq_Nonce :: string
  dq_Secret :: string

record DecryptEntryResponse =
  dr_Success :: bool
  dr_Errors :: "string list"
  dr_Expired :: bool
  dr_Entry :: "Entry option"

text \<open>
  \<^verbatim>\<open>encrypt\<close> and \<^verbatim>\<open>decrypt\<close>: the key is the digest of the master key followed by the
  secret's bytes. \<^verbatim>\<open>aes.NewCipher\<close> returns a \<^verbatim>\<open>KeySizeError\<close> for a key that is not
  16, 24 or 32 bytes long; \<^verbatim>\<open>Seal\<close> and \<^verbatim>\<open>Open\<close> of the standard GCM panic on a nonce
  that is not 12 bytes long.
\<close>

definition encrypt :: "crypto \<Rightarrow> EntryService \<Rightarrow> bytes \<Rightarrow> bytes \<Rightarrow> bytes \<Rightarrow> error + bytes" where
  "encrypt c s val nonce secret =
     (let key = sha256_Sum256 c (aesKey s @ secret) in
      if length key \<notin> {16, 24, 32} then Inl (KeySizeError (length key))
      else if length nonce \<noteq> 12
        then Inl (Panic ''crypto/cipher: incorrect nonce length given to GCM'')
      else Inr (gcm_Seal c key nonce val))"

definition decrypt :: "crypto \<Rightarrow> EntryService \<Rightarrow> bytes \<Rightarrow> bytes \<Rightarrow> bytes \<Rightarrow> error + bytes" where
  "decrypt c s val nonce secret =
     (let key = sha256_Sum256 c (aesKey s @ secret) in
      if length key \<notin> {16, 24, 32} then Inl (KeySizeError (length key))
      else if length nonce \<noteq> 12
        then Inl (Panic ''crypto/cipher: incorrect nonce length given to GCM'')
      else case gcm_Open c key nonce val of
             None \<Rightarrow> Inl ErrOpen
           | Some plain \<Rightarrow> Inr plain)"

text \<open>\<^verbatim>\<open>nonce\<close>: twelve bytes read from the random source \<open>rnd\<close>.\<close>

definition nonce :: "(nat \<Rightarrow> char) \<Rightarrow> bytes" where
  "nonce rnd = map rnd [0..<12]"

definition expireEntry :: "Entry \<Rightarrow> bool \<Rightarrow> world \<Rightarrow> (error + ExpiredEntry) \<times> world" where
  "expireEntry e tooManyAttempts w =
     (let (now, w1) = time_Now w;
          ee = \<lparr>ee_EntryID = ID e, ee_Name = Name e, ee_SentByUserID = SentByUserID e,
                ee_SentToEmail = SentToEmail e, ee_TooManyAttempts = tooManyAttempts,
                ee_ExpiredAtUTC = now\<rparr>
      in case store_CreateExpiredEntry ee w1 of
           (Inl err, w2) \<Rightarrow> (Inl err, w2)
         | (Inr _, w2) \<Rightarrow>
             (case store_Delete (ID e) w2 of
                (Inl err, w3) \<Rightarrow> (Inl err, w3)
              | (Inr _, w3) \<Rightarrow> (Inr ee, w3)))"

definition incrementInvalidAttempts ::
  "EntryService \<Rightarrow> Entry \<Rightarrow> world \<Rightarrow> (error + ExpiredEntry option) \<times> world" where
  "incrementInvalidAttempts s e w =
     (case store_IncrementInvalidAttempts (ID e) w of
        (Inl err, w1) \<Rightarrow> (Inl err, w1)
      | (Inr attempts, w1) \<Rightarrow>
          if attempts \<ge> maxAttempts s then
            (case expireEntry e True w1 of
               (Inl err, w2) \<Rightarrow> (Inl err, w2)
             | (Inr ee, w2) \<Rightarrow> (Inr (Some ee), w2))
          else (Inr None, w1))"

definition claimEntry :: "Entry \<Rightarrow> world \<Rightarrow> (error + ClaimedEntry) \<times> world" where
  "claimEntry e w =
     (let (now, w1) = time_Now w;
          ce = \<lparr>ce_EntryID = ID e, ce_Name = Name e, ce_SentByUserID = SentByUserID e,
                ce_SentToEmail = SentToEmail e, ce_ClaimedAtUTC = now\<rparr>
      in case store_CreateClaimedEntry ce w1 of
           (Inl err, w2) \<Rightarrow> (Inl err, w2)
         | (Inr _, w2) \<Rightarrow>
             (case store_Delete (ID e) w2 of
                (Inl err, w3) \<Rightarrow> (Inl err, w3)
              | (Inr _, w3) \<Rightarrow> (Inr ce, w3)))"

text \<open>\<^verbatim>\<open>SendEntry\<close> sends nothing yet and reports success.\<close>

definition SendEntry :: "Entry \<Rightarrow> world \<Rightarrow> (error + unit) \<times> world" where
  "SendEntry entry w = (Inr (), w)"

text \<open>The validation of \<^verbatim>\<open>CreateEntry\<close>: every failed check appends its message.\<close>

definition CreateEntry_errors :: "CreateEntryRequest \<Rightarrow> string list" where
  "CreateEntry_errors req =
     (if req_SenderID req = uuid_Nil then [''A sender ID is required.''] else []) @
     (if TrimSpace (req_Name req) = [] then [''A name is required.''] else []) @
     (if TrimSpace (req_SendToEmail req) = [] then [''A send to email is required.''] else []) @
     (if TrimSpace (req_Value req) = [] then [''A value is required.''] else []) @
     (if TrimSpace (req_Secret req) = [] then [''A secret is required.''] else []) @
     (if req_Duration req \<le> 0 then [''Duration must be greater than 0.''] else [])"

text \<open>
  \<^verbatim>\<open>CreateEntry\<close>; \<open>rnd\<close> is the random source the nonce is read from and \<open>new_id\<close> the
  identifier \<^verbatim>\<open>uuid.New()\<close> draws.
\<close>

definition CreateEntry ::
  "crypto \<Rightarrow> EntryService \<Rightarrow> CreateEntryRequest \<Rightarrow> (nat \<Rightarrow> char) \<Rightarrow> uuid \<Rightarrow> world
     \<Rightarrow> (error + CreateEntryResponse) \<times> world" where
  "CreateEntry c s req rnd new_id w =
     (let errs = CreateEntry_errors req;
          email = TrimSpace (req_SendToEmail req)
      in if length errs > 0
         then (Inr \<lparr>cr_Success = False, cr_Errors = errs, cr_Entry = None\<rparr>, w)
         else
           let n = nonce rnd in
           case encrypt c s (req_Value req) n (req_Secret req) of
             Inl err \<Rightarrow> (Inl err, w)
           | Inr val \<Rightarrow>
               let (now, w1) = time_Now w;
                   entry = \<lparr>ID = new_id, Name = req_Name req, SentByUserID = req_SenderID req,
                            SentToEmail = email, Nonce = n, Value = val, InvalidAttempts = 0,
                            CreatedAtUTC = now, ExpiresAtUTC = now + req_Duration req\<rparr>
               in case store_Create entry w1 of
                    (Inl err, w2) \<Rightarrow> (Inl err, w2)
                  | (Inr _, w2) \<Rightarrow>
                      let w3 = w2\<lparr>stdout := stdout w2 @ [hex_EncodeToString (Nonce entry)]\<rparr>
                      in case SendEntry entry w3 of
                           (Inl err, w4) \<Rightarrow> (Inl err, w4)
                         | (Inr _, w4) \<Rightarrow>
                             (Inr \<lparr>cr_Success = True, cr_Errors = [], cr_Entry = Some entry\<rparr>, w4))"

definition FindEntry :: "uuid \<Rightarrow> string \<Rightarrow> world \<Rightarrow> (error + Entry option) \<times> world" where
  "FindEntry eid nonce_hex w =
     (case store_Find eid w of
        Inl err \<Rightarrow> (Inl err, w)
      | Inr None \<Rightarrow> (Inr None, w)
      | Inr (Some entry) \<Rightarrow>
          let (now, w1) = time_Now w in
          if \<not> (ExpiresAtUTC entry > now) then
            (case expireEntry entry False w1 of
               (Inl err, w2) \<Rightarrow> (Inl err, w2)
             | (Inr _, w2) \<Rightarrow> (Inr None, w2))
          else if hex_EncodeToString (Nonce entry) \<noteq> nonce_hex then (Inr None, w1)
          else (Inr (Some entry), w1))"

text \<open>The loop of \<^verbatim>\<open>FindByUserID\<close> over the rows the store returned.\<close>

fun FindByUserID_loop ::
  "time \<Rightarrow> Entry list \<Rightarrow> Entry list \<Rightarrow> world \<Rightarrow> (error + Entry list) \<times> world" where
  "FindByUserID_loop now [] result w = (Inr result, w)"
| "FindByUserID_loop now (entry # rest) result w =
     (if ExpiresAtUTC entry > now then FindByUserID_loop now rest (result @ [entry]) w
      else case expireEntry entry False w of
             (Inl err, w1) \<Rightarrow> (Inl err, w1)
           | (Inr _, w1) \<Rightarrow> FindByUserID_loop now rest result w1)"

definition FindByUserID :: "uuid \<Rightarrow> world \<Rightarrow> (error + Entry list) \<times> world" where
  "FindByUserID userID w =
     (case store_FindByUserID userID w of
        Inl err \<Rightarrow> (Inl err, w)
      | Inr rows \<Rightarrow>
          let (now, w1) = time_Now w in FindByUserID_loop now rows [] w1)"

text \<open>
  \<^verbatim>\<open>DecryptEntry\<close>. An error of \<^verbatim>\<open>decrypt\<close> is taken for a wrong secret; a panic of the
  cipher is no error value and leaves the function at once.
\<close>

definition DecryptEntry ::
  "crypto \<Rightarrow> EntryService \<Rightarrow> DecryptEntryRequest \<Rightarrow> world
     \<Rightarrow> (error + DecryptEntryResponse) \<times> world" where
  "DecryptEntry c s req w =
     (case FindEntry (dq_ID req) (dq_Nonce req) w of
        (Inl err, w1) \<Rightarrow> (Inl err, w1)
      | (Inr None, w1) \<Rightarrow>
          (Inr \<lparr>dr_Success = False, dr_Errors = [''Invalid entry ID.''], dr_Expired = False,
                dr_Entry = None\<rparr>, w1)
      | (Inr (Some entry), w1) \<Rightarrow>
          (case decrypt c s (Value entry) (Nonce entry) (dq_Secret req) of
             Inl (Panic p) \<Rightarrow> (Inl (Panic p), w1)
           | Inl _ \<Rightarrow>
               (case incrementInvalidAttempts s entry w1 of
                  (Inl err, w2) \<Rightarrow> (Inl err, w2)
                | (Inr None, w2) \<Rightarrow>
                    (Inr \<lparr>dr_Success = False, dr_Errors = [''Invalid secret.''],
                          dr_Expired = False, dr_Entry = None\<rparr>, w2)
                | (Inr (Some ee), w2) \<Rightarrow>
                    (Inr \<lparr>dr_Success = False,
                          dr_Errors = [''Invalid secret.'',
                            ''Too many attempts have been made, and the entry has been expired.''],
                          dr_Expired = True, dr_Entry = None\<rparr>, w2))
           | Inr plain \<Rightarrow>
               (case claimEntry entry w1 of
                  (Inl err, w2) \<Rightarrow> (Inl err, w2)
                | (Inr _, w2) \<Rightarrow>
                    (Inr \<lparr>dr_Success = True, dr_Errors = [], dr_Expired = False,
                          dr_Entry = Some (entry\<lparr>Value := plain\<rparr>)\<rparr>, w2))))"

section \<open>The token manager (cmd/api, tokenManager)\<close>

text \<open>
  The signing library (jwt-go 3.2.0) and the uuid library are outside the repository.
  What the token manager needs of them is a parameter of the model:
  \<^item> \<open>SigningString\<close>: the first two segments of a compact token, the encoded header
    and the encoded claims joined by a dot;
  \<^item> \<open>hmac_Sign\<close> and \<open>hmac_Verify\<close>: the HMAC signing method, on a signing string
    and a key;
  \<^item> \<open>ParseUnverified\<close>: the decoding of a compact token into its signing method, its
    claims, its signing string and its signature segment, or the message of the
    validation error the library raises when the string cannot be decoded;
  \<^item> \<open>uuid_String\<close> and \<open>uuid_Parse\<close>: the textual form of an identifier.
  The control flow of \<^verbatim>\<open>jwt.Parse\<close> and the validation of the registered claims follow
  the library and are written out below.
\<close>

datatype SigningMethod = SigningMethodHMAC string | SigningMethodOther string

fun alg_name :: "SigningMethod \<Rightarrow> string" where
  "alg_name (SigningMethodHMAC a) = a"
| "alg_name (SigningMethodOther a) = a"

definition SigningMethodHS256 :: SigningMethod where
  "SigningMethodHS256 = SigningMethodHMAC ''HS256''"

text \<open>A claim value as \<^verbatim>\<open>encoding/json\<close> decodes it into a \<^verbatim>\<open>MapClaims\<close>.\<close>

datatype json = JString string | JNumber int | JOther

text \<open>
  The fields of \<^verbatim>\<open>jwt.StandardClaims\<close> that \<^verbatim>\<open>AccessToken\<close> sets; the others keep
  their zero value and are left out of the encoding.
\<close>

record StandardClaims =
  ExpiresAt :: int
  Id :: string
  IssuedAt :: int

record jwt_Token =
  Method :: SigningMethod
  Claims :: "string \<Rightarrow> json option"
  SigningString_of :: string
  Signature :: string
  Valid :: bool

record libs =
  SigningString :: "SigningMethod \<Rightarrow> StandardClaims \<Rightarrow> string"
  hmac_Sign :: "string \<Rightarrow> string \<Rightarrow> bytes \<Rightarrow> string"
  hmac_Verify :: "string \<Rightarrow> string \<Rightarrow> string \<Rightarrow> bytes \<Rightarrow> bool"
  ParseUnverified :: "string \<Rightarrow> string + jwt_Token"
  uuid_String :: "uuid \<Rightarrow> string"
  uuid_Parse :: "string \<Rightarrow> uuid option"

text \<open>
  The claims object a \<^verbatim>\<open>StandardClaims\<close> value decodes to: every field is tagged
  \<^verbatim>\<open>omitempty\<close>, so a zero number and an empty string are absent.
\<close>

definition claims_of :: "StandardClaims \<Rightarrow> string \<Rightarrow> json option" where
  "claims_of c k =
     (if k = ''exp'' \<and> ExpiresAt c \<noteq> 0 then Some (JNumber (ExpiresAt c))
      else if k = ''jti'' \<and> Id c \<noteq> [] then Some (JString (Id c))
      else if k = ''iat'' \<and> IssuedAt c \<noteq> 0 then Some (JNumber (IssuedAt c))
      else None)"

text \<open>\<^verbatim>\<open>Time.Unix\<close>: whole seconds since the epoch.\<close>

definition Unix :: "time \<Rightarrow> int" where
  "Unix t = t div 1000000000"

text \<open>
  \<^verbatim>\<open>NewWithClaims(method, claims).SignedString(key)\<close> for an HMAC method and a byte-slice
  key, which cannot fail: the signing string, a dot, the signature.
\<close>

definition SignedString :: "libs \<Rightarrow> SigningMethod \<Rightarrow> StandardClaims \<Rightarrow> bytes \<Rightarrow> error + string" where
  "SignedString lib method claims key =
     (let sstr = SigningString lib method claims;
          sig = hmac_Sign lib (alg_name method) sstr key
      in Inr (sstr @ ''.'' @ sig))"

text \<open>
  \<^verbatim>\<open>MapClaims.Valid\<close>: the three time checks, none of them required, each skipped when
  its claim is absent, not a number, or zero. The error keeps the message of the last
  check that failed.
\<close>

definition verifyExp :: "(string \<Rightarrow> json option) \<Rightarrow> int \<Rightarrow> bool" where
  "verifyExp m now = (case m ''exp'' of Some (JNumber exp) \<Rightarrow> exp = 0 \<or> now \<le> exp | _ \<Rightarrow> True)"

definition verifyIat :: "(string \<Rightarrow> json option) \<Rightarrow> int \<Rightarrow> bool" where
  "verifyIat m now = (case m ''iat'' of Some (JNumber iat) \<Rightarrow> iat = 0 \<or> now \<ge> iat | _ \<Rightarrow> True)"

definition verifyNbf :: "(string \<Rightarrow> json option) \<Rightarrow> int \<Rightarrow> bool" where
  "verifyNbf m now = (case m ''nbf'' of Some (JNumber nbf) \<Rightarrow> nbf = 0 \<or> now \<ge> nbf | _ \<Rightarrow> True)"

definition MapClaims_Valid :: "(string \<Rightarrow> json option) \<Rightarrow> int \<Rightarrow> string option" where
  "MapClaims_Valid m now =
     (if \<not> verifyNbf m now then Some ''Token is not valid yet''
      else if \<not> verifyIat m now then Some ''Token used before issued''
      else if \<not> verifyExp m now then Some ''Token is expired''
      else None)"

text \<open>
  \<^verbatim>\<open>jwt.Parse\<close>: decode, ask the key function for the key, validate the claims at the
  current time, verify the signature. A failure is a validation error, given here by its
  message: the message of the key function's error, or of the signature error when the
  signature is wrong, or else of the claims error.
\<close>

definition jwt_Parse ::
  "libs \<Rightarrow> string \<Rightarrow> (jwt_Token \<Rightarrow> string + bytes) \<Rightarrow> world \<Rightarrow> (string + jwt_Token) \<times> world" where
  "jwt_Parse lib tokenString keyFunc w =
     (case ParseUnverified lib tokenString of
        Inl msg \<Rightarrow> (Inl msg, w)
      | Inr token \<Rightarrow>
          (case keyFunc token of
             Inl msg \<Rightarrow> (Inl msg, w)
           | Inr key \<Rightarrow>
               let (now, w1) = time_Now w;
                   claimsErr = MapClaims_Valid (Claims token) (Unix now)
               in if \<not> hmac_Verify lib (alg_name (Method token)) (SigningString_of token)
                        (Signature token) key
                  then (Inl ''signature is invalid'', w1)
                  else case claimsErr of
                         Some msg \<Rightarrow> (Inl msg, w1)
                       | None \<Rightarrow> (Inr (token\<lparr>Valid := True\<rparr>), w1)))"

record tokenManager =
  privateKey :: bytes
  accessTokenLifetime :: duration
  refreshTokenLifetime :: duration

record Token =
  Token :: string
  Expires :: int

record Error =
  UserID :: uuid
  StatusCode :: int
  Message :: string

definition StatusUnauthorized :: int where
  "StatusUnauthorized = 401"

definition AccessToken :: "libs \<Rightarrow> tokenManager \<Rightarrow> uuid \<Rightarrow> world \<Rightarrow> (error + Token) \<times> world" where
  "AccessToken lib m userID w =
     (let (now, w1) = time_Now w;
          expires = Unix (now + accessTokenLifetime m);
          claims = \<lparr>ExpiresAt = expires, Id = uuid_String lib userID, IssuedAt = Unix now\<rparr>
      in case SignedString lib SigningMethodHS256 claims (privateKey m) of
           Inl err \<Rightarrow> (Inl err, w1)
         | Inr token \<Rightarrow> (Inr \<lparr>Token = token, Expires = expires\<rparr>, w1))"

text \<open>The key function \<^verbatim>\<open>Verify\<close> hands to the parser.\<close>

definition Verify_keyFunc :: "tokenManager \<Rightarrow> jwt_Token \<Rightarrow> string + bytes" where
  "Verify_keyFunc m token =
     (case Method token of
        SigningMethodHMAC _ \<Rightarrow> Inr (privateKey m)
      | SigningMethodOther a \<Rightarrow> Inl (''unexpected signing method: '' @ a))"

text \<open>
  \<^verbatim>\<open>Verify\<close>. Every error the parser returns is a validation error of the library, so
  the branch that would pass any other error on unchanged is never taken; a parsed token
  comes back with \<open>Valid\<close> set and with map claims, so the check that follows cannot
  fail either, and is kept as the source has it.
\<close>

definition Verify :: "libs \<Rightarrow> tokenManager \<Rightarrow> string \<Rightarrow> world \<Rightarrow> (Error + uuid) \<times> world" where
  "Verify lib m token w =
     (if token = [] then
        (Inl \<lparr>UserID = uuid_Nil, StatusCode = StatusUnauthorized,
              Message = ''no token provided''\<rparr>, w)
      else case jwt_Parse lib token (Verify_keyFunc m) w of
             (Inl msg, w1) \<Rightarrow>
               (Inl \<lparr>UserID = uuid_Nil, StatusCode = StatusUnauthorized, Message = msg\<rparr>, w1)
           | (Inr t, w1) \<Rightarrow>
               if \<not> Valid t then
                 (Inl \<lparr>UserID = uuid_Nil, StatusCode = StatusUnauthorized,
                       Message = ''token invalid or failed to parse token claims''\<rparr>, w1)
               else case Claims t ''jti'' of
                      Some (JString idClaim) \<Rightarrow>
                        (case uuid_Parse lib idClaim of
                           None \<Rightarrow>
                             (Inl \<lparr>UserID = uuid_Nil, StatusCode = StatusUnauthorized,
                                   Message = ''invalid token claims''\<rparr>, w1)
                         | Some uid \<Rightarrow> (Inr uid, w1))
                    | _ \<Rightarrow>
                        (Inl \<lparr>UserID = uuid_Nil, StatusCode = StatusUnauthorized,
                              Message = ''invalid token claims''\<rparr>, w1))"

text \<open>Every failure of \<^verbatim>\<open>Verify\<close> has this shape: status 401 and a message.\<close>

definition unauthorized :: "string \<Rightarrow> Error" where
  "unauthorized msg = \<lparr>UserID = uuid_Nil, StatusCode = StatusUnauthorized, Message = msg\<rparr>"

section \<open>Vocabulary of the statements\<close>

text \<open>The identifiers each table holds.\<close>

definition active_ids :: "world \<Rightarrow> uuid set" where
  "active_ids w = ID ` set (entries w)"

definition claimed_ids :: "world \<Rightarrow> uuid set" where
  "claimed_ids w = ce_EntryID ` set (claimed_entries w)"

definition expired_ids :: "world \<Rightarrow> uuid set" where
  "expired_ids w = ee_EntryID ` set (expired_entries w)"

text \<open>
  A world is consistent when the ids of its active rows are distinct (the primary key)
  and no active row has a projection.
\<close>

definition consistent :: "world \<Rightarrow> bool" where
  "consistent w \<longleftrightarrow>
     distinct (map ID (entries w)) \<and>
     (\<forall>r \<in> set (entries w). ID r \<notin> claimed_ids w \<and> ID r \<notin> expired_ids w)"

text \<open>
  The projections that expiring the rows \<open>rs\<close> by time leaves, one after the other, when
  the clock has been read \<open>k\<close> times before: each expiry reads the clock once.
\<close>

fun expired_projections :: "(nat \<Rightarrow> time) \<Rightarrow> nat \<Rightarrow> Entry list \<Rightarrow> ExpiredEntry list" where
  "expired_projections clk k [] = []"
| "expired_projections clk k (r # rs) =
     \<lparr>ee_EntryID = ID r, ee_Name = Name r, ee_SentByUserID = SentByUserID r,
      ee_SentToEmail = SentToEmail r, ee_TooManyAttempts = False, ee_ExpiredAtUTC = clk k\<rparr>
     # expired_projections clk (Suc k) rs"

text \<open>
  The claims \<^verbatim>\<open>AccessToken\<close> embeds for a user when the clock shows \<open>now\<close>, and the
  compact token it signs over them.
\<close>

definition issued_claims :: "libs \<Rightarrow> tokenManager \<Rightarrow> uuid \<Rightarrow> time \<Rightarrow> StandardClaims" where
  "issued_claims lib m userID now =
     \<lparr>ExpiresAt = Unix (now + accessTokenLifetime m), Id = uuid_String lib userID,
      IssuedAt = Unix now\<rparr>"

definition issued_token :: "libs \<Rightarrow> tokenManager \<Rightarrow> uuid \<Rightarrow> time \<Rightarrow> string" where
  "issued_token lib m userID now =
     SigningString lib SigningMethodHS256 (issued_claims lib m userID now) @ ''.'' @
     hmac_Sign lib ''HS256'' (SigningString lib SigningMethodHS256 (issued_claims lib m userID now))
       (privateKey m)"

section \<open>Instances\<close>

text \<open>
  A stand-in for the cipher primitives, used to instantiate the theorems below: the
  digest keeps the first 32 bytes of its input padded with 32 digits, sealing prefixes the
  plaintext with the key and the nonce, and opening checks that prefix.
\<close>

definition toy_sha :: "bytes \<Rightarrow> bytes" where
  "toy_sha x = take 32 (x @ ''00000000000000000000000000000000'')"

definition toy_Seal :: "bytes \<Rightarrow> bytes \<Rightarrow> bytes \<Rightarrow> bytes" where
  "toy_Seal k n p = k @ n @ p"

definition toy_Open :: "bytes \<Rightarrow> bytes \<Rightarrow> bytes \<Rightarrow> bytes option" where
  "toy_Open k n ct =
     (if take (length k + length n) ct = k @ n then Some (drop (length k + length n) ct)
      else None)"

definition toy_crypto :: crypto where
  "toy_crypto = \<lparr>sha256_Sum256 = toy_sha, gcm_Seal = toy_Seal, gcm_Open = toy_Open\<rparr>"

text \<open>
  Two services over the same master key, allowing three wrong attempts and one; a random
  source, an empty world whose clock starts at instant 1000, and two requests.
\<close>

definition example_service :: EntryService where
  "example_service = \<lparr>aesKey = ''master key'', maxAttempts = 3\<rparr>"

definition strict_service :: EntryService where
  "strict_service = \<lparr>aesKey = ''master key'', maxAttempts = 1\<rparr>"

definition example_rnd :: "nat \<Rightarrow> char" where
  "example_rnd i = CHR ''n''"

definition example_world :: world where
  "example_world = \<lparr>entries = [], claimed_entries = [], expired_entries = [], stdout = [],
     clock = (\<lambda>n. 1000 + int n), ticks = 0\<rparr>"

definition invalid_request :: CreateEntryRequest where
  "invalid_request = \<lparr>req_Name = ''  '', req_SenderID = 0, req_SendToEmail = ''bob@example.org'',
     req_Value = [], req_Secret = ''s'', req_Duration = 0\<rparr>"


text \<open>
  A world with two rows of user 7: at the first clock reading, 1000, the first row has
  time left and the second is past its deadline.
\<close>

definition stored_entry :: Entry where
  "stored_entry = \<lparr>ID = 42, Name = ''door code'', SentByUserID = 7,
     SentToEmail = ''bob@example.org'',
     Nonce = [CHR 0xAB, CHR 0xAB, CHR 0xAB, CHR 0xAB, CHR 0xAB, CHR 0xAB,
              CHR 0xAB, CHR 0xAB, CHR 0xAB, CHR 0xAB, CHR 0xAB, CHR 0xAB],
     Value = ''sealed'', InvalidAttempts = 0, CreatedAtUTC = 900, ExpiresAtUTC = 2000\<rparr>"

definition overdue_entry :: Entry where
  "overdue_entry = \<lparr>ID = 43, Name = ''old code'', SentByUserID = 7,
     SentToEmail = ''eve@example.org'',
     Nonce = [CHR 0x01, CHR 0x02, CHR 0x03, CHR 0x04, CHR 0x05, CHR 0x06,
              CHR 0x07, CHR 0x08, CHR 0x09, CHR 0x0A, CHR 0x0B, CHR 0x0C],
     Value = ''sealed'', InvalidAttempts = 0, CreatedAtUTC = 800, ExpiresAtUTC = 1000\<rparr>"

definition busy_world :: world where
  "busy_world = \<lparr>entries = [stored_entry, overdue_entry], claimed_entries = [],
     expired_entries = [], stdout = [], clock = (\<lambda>n. 1000 + int n), ticks = 0\<rparr>"

text \<open>
  A stand-in for the libraries: a signature is the key itself, identifier 7 is written
  \<open>seven\<close>, and five compact tokens decode.
\<close>

definition toy_token :: "SigningMethod \<Rightarrow> StandardClaims \<Rightarrow> string \<Rightarrow> jwt_Token" where
  "toy_token meth c sig =
     \<lparr>Method = meth, Claims = claims_of c, SigningString_of = alg_name meth @ '':'' @ Id c,
      Signature = sig, Valid = False\<rparr>"

definition toy_ParseUnverified :: "string \<Rightarrow> string + jwt_Token" where
  "toy_ParseUnverified s =
     (if s = ''HS256:seven.signing key'' then
        Inr (toy_token SigningMethodHS256 \<lparr>ExpiresAt = 905, Id = ''seven'', IssuedAt = 5\<rparr>
               ''signing key'')
      else if s = ''HS256:seven.forged'' then
        Inr (toy_token SigningMethodHS256 \<lparr>ExpiresAt = 905, Id = ''seven'', IssuedAt = 5\<rparr>
               ''forged'')
      else if s = ''RS256:seven.signing key'' then
        Inr (toy_token (SigningMethodOther ''RS256'')
               \<lparr>ExpiresAt = 905, Id = ''seven'', IssuedAt = 5\<rparr> ''signing key'')
      else if s = ''HS256:old.signing key'' then
        Inr (toy_token SigningMethodHS256 \<lparr>ExpiresAt = 3, Id = ''seven'', IssuedAt = 1\<rparr>
               ''signing key'')
      else if s = ''HS256:nobody.signing key'' then
        Inr (toy_token SigningMethodHS256 \<lparr>ExpiresAt = 905, Id = ''nobody'', IssuedAt = 5\<rparr>
               ''signing key'')
      else Inl ''token contains an invalid number of segments'')"

definition toy_libs :: libs where
  "toy_libs =
     \<lparr>SigningString = (\<lambda>meth c. alg_name meth @ '':'' @ Id c),
      hmac_Sign = (\<lambda>alg sstr key. key),
      hmac_Verify = (\<lambda>alg sstr sig key. sig = key),
      ParseUnverified = toy_ParseUnverified,
      uuid_String = (\<lambda>u. if u = 7 then ''seven'' else ''other''),
      uuid_Parse = (\<lambda>s. if s = ''seven'' then Some 7 else None)\<rparr>"

text \<open>
  A token manager with a lifetime of fifteen minutes, and a world whose clock starts five
  seconds after the epoch.
\<close>

definition example_manager :: tokenManager where
  "example_manager = \<lparr>privateKey = ''signing key'', accessTokenLifetime = 900000000000,
     refreshTokenLifetime = 3600000000000\<rparr>"

definition token_world :: world where
  "token_world = \<lparr>entries = [], claimed_entries = [], expired_entries = [], stdout = [],
     clock = (\<lambda>n. 5000000000 + int n), ticks = 0\<rparr>"

section \<open>Properties of the store and of the transitions\<close>

lemma store_Find_Some:
  "find (\<lambda>r. ID r = eid) (entries w) = Some r \<Longrightarrow> store_Find eid w = Inr (Some r)"
proof -
  assume f: "find (\<lambda>r. ID r = eid) (entries w) = Some r"
  then have "ID r = eid" by (auto simp: find_Some_iff)
  with f show ?thesis by (auto simp: store_Find_def)
qed

lemma store_Find_None:
  "find (\<lambda>r. ID r = eid) (entries w) = None \<Longrightarrow> store_Find eid w = Inr None"
  by (simp add: store_Find_def)

lemma expireEntry_ok:
  "ID e \<notin> expired_ids w \<Longrightarrow>
   expireEntry e b w =
     (Inr \<lparr>ee_EntryID = ID e, ee_Name = Name e, ee_SentByUserID = SentByUserID e,
           ee_SentToEmail = SentToEmail e, ee_TooManyAttempts = b,
           ee_ExpiredAtUTC = clock w (ticks w)\<rparr>,
      w\<lparr>ticks := Suc (ticks w),
        expired_entries := expired_entries w @
          [\<lparr>ee_EntryID = ID e, ee_Name = Name e, ee_SentByUserID = SentByUserID e,
            ee_SentToEmail = SentToEmail e, ee_TooManyAttempts = b,
            ee_ExpiredAtUTC = clock w (ticks w)\<rparr>],
        entries := filter (\<lambda>r. ID r \<noteq> ID e) (entries w)\<rparr>)"
  by (auto simp: expireEntry_def expired_ids_def time_Now_def store_CreateExpiredEntry_def
      store_Delete_def Let_def image_iff)

lemma expireEntry_dup:
  "ID e \<in> expired_ids w \<Longrightarrow>
   expireEntry e b w = (Inl ErrDuplicateEntry, w\<lparr>ticks := Suc (ticks w)\<rparr>)"
  by (auto simp: expireEntry_def expired_ids_def time_Now_def store_CreateExpiredEntry_def
      store_Delete_def Let_def image_iff)

lemma claimEntry_ok:
  "ID e \<notin> claimed_ids w \<Longrightarrow>
   claimEntry e w =
     (Inr \<lparr>ce_EntryID = ID e, ce_Name = Name e, ce_SentByUserID = SentByUserID e,
           ce_SentToEmail = SentToEmail e, ce_ClaimedAtUTC = clock w (ticks w)\<rparr>,
      w\<lparr>ticks := Suc (ticks w),
        claimed_entries := claimed_entries w @
          [\<lparr>ce_EntryID = ID e, ce_Name = Name e, ce_SentByUserID = SentByUserID e,
            ce_SentToEmail = SentToEmail e, ce_ClaimedAtUTC = clock w (ticks w)\<rparr>],
        entries := filter (\<lambda>r. ID r \<noteq> ID e) (entries w)\<rparr>)"
  by (auto simp: claimEntry_def claimed_ids_def time_Now_def store_CreateClaimedEntry_def
      store_Delete_def Let_def image_iff)

lemma claimEntry_dup:
  "ID e \<in> claimed_ids w \<Longrightarrow>
   claimEntry e w = (Inl ErrDuplicateEntry, w\<lparr>ticks := Suc (ticks w)\<rparr>)"
  by (auto simp: claimEntry_def claimed_ids_def time_Now_def store_CreateClaimedEntry_def
      store_Delete_def Let_def image_iff)

lemma FindEntry_absent:
  "find (\<lambda>r. ID r = eid) (entries w) = None \<Longrightarrow> FindEntry eid n w = (Inr None, w)"
  by (simp add: FindEntry_def store_Find_None)

lemma FindEntry_live:
  "find (\<lambda>r. ID r = eid) (entries w) = Some r \<Longrightarrow> clock w (ticks w) < ExpiresAtUTC r \<Longrightarrow>
   FindEntry eid n w =
     (if hex_EncodeToString (Nonce r) = n then Inr (Some r) else Inr None,
      w\<lparr>ticks := Suc (ticks w)\<rparr>)"
  by (simp add: FindEntry_def store_Find_Some time_Now_def)

lemma FindEntry_expired:
  "find (\<lambda>r. ID r = eid) (entries w) = Some r \<Longrightarrow> ExpiresAtUTC r \<le> clock w (ticks w) \<Longrightarrow>
   eid \<notin> expired_ids w \<Longrightarrow>
   FindEntry eid n w =
     (Inr None,
      w\<lparr>ticks := Suc (Suc (ticks w)),
        expired_entries := expired_entries w @
          [\<lparr>ee_EntryID = eid, ee_Name = Name r, ee_SentByUserID = SentByUserID r,
            ee_SentToEmail = SentToEmail r, ee_TooManyAttempts = False,
            ee_ExpiredAtUTC = clock w (Suc (ticks w))\<rparr>],
        entries := filter (\<lambda>r. ID r \<noteq> eid) (entries w)\<rparr>)"
proof -
  assume f: "find (\<lambda>r. ID r = eid) (entries w) = Some r"
    and x: "ExpiresAtUTC r \<le> clock w (ticks w)" and n: "eid \<notin> expired_ids w"
  from f have id: "ID r = eid" by (auto simp: find_Some_iff)
  have "ID r \<notin> expired_ids (w\<lparr>ticks := Suc (ticks w)\<rparr>)"
    using n id by (simp add: expired_ids_def)
  from expireEntry_ok[OF this, of False] f x id show ?thesis
    by (simp add: FindEntry_def store_Find_Some time_Now_def)
qed

section \<open>Validation in CreateEntry\<close>

lemma CreateEntry_errors_eq:
  "CreateEntry_errors req = map snd (filter fst
     [(req_SenderID req = uuid_Nil, ''A sender ID is required.''),
      (TrimSpace (req_Name req) = [], ''A name is required.''),
      (TrimSpace (req_SendToEmail req) = [], ''A send to email is required.''),
      (TrimSpace (req_Value req) = [], ''A value is required.''),
      (TrimSpace (req_Secret req) = [], ''A secret is required.''),
      (req_Duration req \<le> 0, ''Duration must be greater than 0.'')])"
  by (simp add: CreateEntry_errors_def)

lemma CreateEntry_errors_Nil_iff:
  "CreateEntry_errors req = [] \<longleftrightarrow>
     req_SenderID req \<noteq> uuid_Nil \<and> TrimSpace (req_Name req) \<noteq> [] \<and>
     TrimSpace (req_SendToEmail req) \<noteq> [] \<and> TrimSpace (req_Value req) \<noteq> [] \<and>
     TrimSpace (req_Secret req) \<noteq> [] \<and> 0 < req_Duration req"
  by (auto simp add: CreateEntry_errors_def)

lemma CreateEntry_invalid:
  "CreateEntry_errors req \<noteq> [] \<Longrightarrow>
   CreateEntry c s req rnd new_id w =
     (Inr \<lparr>cr_Success = False, cr_Errors = CreateEntry_errors req, cr_Entry = None\<rparr>, w)"
  by (simp add: CreateEntry_def)

text \<open>
  C6. A request that violates at least one validation rule (nil sender id; name,
  recipient email, value or secret blank after trimming; duration not strictly
  positive) gets an unsuccessful response with no entry, whose error list holds the
  message of every violated rule and of no other, in the order of the rules. The world
  comes back as it was: no row is written, nothing is printed, the clock is not read.
  The response does not depend on the cipher, the key, the random source or the fresh
  identifier: nothing is encrypted and no notification is attempted.
\<close>

theorem CreateEntry_validation_failure:
  assumes "req_SenderID req = uuid_Nil \<or> TrimSpace (req_Name req) = [] \<or>
           TrimSpace (req_SendToEmail req) = [] \<or> TrimSpace (req_Value req) = [] \<or>
           TrimSpace (req_Secret req) = [] \<or> req_Duration req \<le> 0"
  shows "CreateEntry c s req rnd new_id w =
     (Inr \<lparr>cr_Success = False,
           cr_Errors = map snd (filter fst
             [(req_SenderID req = uuid_Nil, ''A sender ID is required.''),
              (TrimSpace (req_Name req) = [], ''A name is required.''),
              (TrimSpace (req_SendToEmail req) = [], ''A send to email is required.''),
              (TrimSpace (req_Value req) = [], ''A value is required.''),
              (TrimSpace (req_Secret req) = [], ''A secret is required.''),
              (req_Duration req \<le> 0, ''Duration must be greater than 0.'')]),
           cr_Entry = None\<rparr>, w)"
proof -
  from assms have "CreateEntry_errors req \<noteq> []"
    unfolding CreateEntry_errors_Nil_iff by auto
  from CreateEntry_invalid[OF this] show ?thesis
    unfolding CreateEntry_errors_eq .
qed

theorem CreateEntry_validation_failure_witness:
  "CreateEntry toy_crypto example_service invalid_request example_rnd 42 example_world =
     (Inr \<lparr>cr_Success = False,
           cr_Errors = [''A sender ID is required.'', ''A name is required.'',
                        ''A value is required.'', ''Duration must be greater than 0.''],
           cr_Entry = None\<rparr>, example_world)"
  using CreateEntry_validation_failure
    [of invalid_request toy_crypto example_service example_rnd 42 example_world]
  by (simp add: invalid_request_def uuid_Nil_def TrimSpace_def asciiSpace_def space2_def space3_def)

section \<open>The transitions out of the active state\<close>



section \<open>Lazy expiry\<close>

text \<open>
  C10 (expiry precedes the nonce check). For a stored entry whose deadline has passed
  (its expiry is at or before the clock reading of \<^verbatim>\<open>FindEntry\<close>) and that has no expired
  projection yet, \<^verbatim>\<open>FindEntry\<close> with the entry's id and any presented string, right, wrong
  or not hex at all, reports not-found and leaves a world where the \<^verbatim>\<open>ExpiredEntry\<close>
  projection with \<open>TooManyAttempts = False\<close> has been appended and the active row deleted;
  \<^verbatim>\<open>DecryptEntry\<close> with any phrase does the same and answers that the entry id is
  invalid. The resulting world does not depend on the presented string.
\<close>

theorem expiry_precedes_nonce_check:
  assumes "find (\<lambda>r. ID r = eid) (entries w) = Some r"
      and "ExpiresAtUTC r \<le> clock w (ticks w)"
      and "eid \<notin> expired_ids w"
  shows "\<exists>w'. FindEntry eid presented w = (Inr None, w') \<and>
           DecryptEntry c s \<lparr>dq_ID = eid, dq_Nonce = presented, dq_Secret = secret\<rparr> w =
             (Inr \<lparr>dr_Success = False, dr_Errors = [''Invalid entry ID.''],
                   dr_Expired = False, dr_Entry = None\<rparr>, w') \<and>
           expired_entries w' = expired_entries w @
             [\<lparr>ee_EntryID = eid, ee_Name = Name r, ee_SentByUserID = SentByUserID r,
               ee_SentToEmail = SentToEmail r, ee_TooManyAttempts = False,
               ee_ExpiredAtUTC = clock w (Suc (ticks w))\<rparr>] \<and>
           entries w' = filter (\<lambda>r. ID r \<noteq> eid) (entries w) \<and>
           eid \<notin> active_ids w' \<and> eid \<in> expired_ids w'"
  using assms
  by (auto simp: FindEntry_expired DecryptEntry_def active_ids_def expired_ids_def)

theorem expiry_precedes_nonce_check_witness:
  "FindEntry 43 ''not even hex'' busy_world =
     (Inr None,
      busy_world\<lparr>ticks := 2,
        expired_entries := [\<lparr>ee_EntryID = 43, ee_Name = ''old code'', ee_SentByUserID = 7,
           ee_SentToEmail = ''eve@example.org'', ee_TooManyAttempts = False,
           ee_ExpiredAtUTC = 1001\<rparr>],
        entries := [stored_entry]\<rparr>)"
proof -
  have f: "find (\<lambda>r. ID r = 43) (entries busy_world) = Some overdue_entry"
    by (simp add: busy_world_def stored_entry_def overdue_entry_def)
  have x: "ExpiresAtUTC overdue_entry \<le> clock busy_world (ticks busy_world)"
    by (simp add: busy_world_def overdue_entry_def)
  have n: "43 \<notin> expired_ids busy_world"
    by (simp add: expired_ids_def busy_world_def)
  from expiry_precedes_nonce_check[OF f x n, of "''not even hex''" toy_crypto example_service "''x''"]
  obtain w' where w': "FindEntry 43 ''not even hex'' busy_world = (Inr None, w')"
    "expired_entries w' = expired_entries busy_world @
             [\<lparr>ee_EntryID = 43, ee_Name = Name overdue_entry, ee_SentByUserID = SentByUserID overdue_entry,
               ee_SentToEmail = SentToEmail overdue_entry, ee_TooManyAttempts = False,
               ee_ExpiredAtUTC = clock busy_world (Suc (ticks busy_world))\<rparr>]" by blast
  have "FindEntry 43 ''not even hex'' busy_world = (Inr None,
      busy_world\<lparr>ticks := 2,
        expired_entries := [\<lparr>ee_EntryID = 43, ee_Name = ''old code'', ee_SentByUserID = 7,
           ee_SentToEmail = ''eve@example.org'', ee_TooManyAttempts = False,
           ee_ExpiredAtUTC = 1001\<rparr>],
        entries := [stored_entry]\<rparr>)"
    unfolding FindEntry_expired[OF f x n]
    by (simp add: busy_world_def overdue_entry_def stored_entry_def)
  with w' show ?thesis by simp
qed

section \<open>The nonce check of FindEntry\<close>

lemma hex_stored: "hex_EncodeToString (Nonce stored_entry) = ''abababababababababababab''"
  by (simp add: stored_entry_def hex_EncodeToString_def hex_byte_def hextable_def)

lemma upper_case_decodes: "hex_DecodeString ''ABABABABABABABABABABABAB'' = Some (Nonce stored_entry)"
  by code_simp

text \<open>
  C5 as it is stated fails. The stored nonce is twelve bytes 0xAB and the presented
  string spells them with upper-case digits: its hex decoding is the stored nonce, the
  entry is stored and has time left, and yet \<^verbatim>\<open>FindEntry\<close> reports not-found.
\<close>

theorem FindEntry_upper_case_nonce_counterexample:
  "hex_DecodeString ''ABABABABABABABABABABABAB'' = Some (Nonce stored_entry) \<and>
   find (\<lambda>r. ID r = 42) (entries busy_world) = Some stored_entry \<and>
   clock busy_world (ticks busy_world) < ExpiresAtUTC stored_entry \<and>
   fst (FindEntry 42 ''ABABABABABABABABABABABAB'' busy_world) = Inr None"
proof -
  have f: "find (\<lambda>r. ID r = 42) (entries busy_world) = Some stored_entry"
    by (simp add: busy_world_def stored_entry_def)
  have l: "clock busy_world (ticks busy_world) < ExpiresAtUTC stored_entry"
    by (simp add: busy_world_def stored_entry_def)
  have r: "fst (FindEntry 42 ''ABABABABABABABABABABABAB'' busy_world) = Inr None"
    unfolding FindEntry_live[OF f l] by (simp add: hex_stored)
  from upper_case_decodes f l r show ?thesis by blast
qed

lemma fromHexChar_hextable: "x < 16 \<Longrightarrow> fromHexChar (hextable ! x) = Some x"
proof -
  assume "x < 16"
  then have "x = 0 \<or> x = 1 \<or> x = 2 \<or> x = 3 \<or> x = 4 \<or> x = 5 \<or> x = 6 \<or> x = 7 \<or>
      x = 8 \<or> x = 9 \<or> x = 10 \<or> x = 11 \<or> x = 12 \<or> x = 13 \<or> x = 14 \<or> x = 15"
    by presburger
  then show ?thesis
    by (elim disjE) (simp_all add: hextable_def fromHexChar_def)
qed

lemma hex_DecodeString_hex_byte:
  "hex_DecodeString (hex_byte b @ rest) =
     (case hex_DecodeString rest of Some bs \<Rightarrow> Some (b # bs) | None \<Rightarrow> None)"
proof -
  have lt: "(of_char b :: nat) < 256" by simp
  then have d: "(of_char b :: nat) div 16 < 16" by presburger
  have m: "(of_char b :: nat) mod 16 < 16" by simp
  have "char_of (16 * ((of_char b :: nat) div 16) + (of_char b :: nat) mod 16) = b"
    by simp
  then show ?thesis
    by (simp add: hex_byte_def fromHexChar_hextable[OF d] fromHexChar_hextable[OF m]
        split: option.split)
qed

lemma hex_round_trip: "hex_DecodeString (hex_EncodeToString bs) = Some bs"
  by (induction bs) (simp_all add: hex_EncodeToString_def hex_DecodeString_hex_byte)

text \<open>
  C5, amended. For a stored entry with time left, \<^verbatim>\<open>FindEntry\<close> returns the entry,
  unmodified, exactly when the presented string equals the lower-case hex encoding of the
  stored nonce, and not-found otherwise; that encoding decodes to the stored nonce. A
  mismatch gives the same result as an id that no row holds, and in both cases every
  table and the output are as they were.
\<close>

theorem FindEntry_nonce_check:
  assumes f: "find (\<lambda>r. ID r = eid) (entries w) = Some r"
      and l: "clock w (ticks w) < ExpiresAtUTC r"
      and a: "find (\<lambda>r. ID r = other) (entries w) = None"
  shows "fst (FindEntry eid presented w) =
           (if presented = hex_EncodeToString (Nonce r) then Inr (Some r) else Inr None) \<and>
         hex_DecodeString (hex_EncodeToString (Nonce r)) = Some (Nonce r) \<and>
         fst (FindEntry other presented w) = Inr None \<and>
         entries (snd (FindEntry eid presented w)) = entries w \<and>
         claimed_entries (snd (FindEntry eid presented w)) = claimed_entries w \<and>
         expired_entries (snd (FindEntry eid presented w)) = expired_entries w \<and>
         stdout (snd (FindEntry eid presented w)) = stdout w \<and>
         entries (snd (FindEntry other presented w)) = entries w \<and>
         claimed_entries (snd (FindEntry other presented w)) = claimed_entries w \<and>
         expired_entries (snd (FindEntry other presented w)) = expired_entries w \<and>
         stdout (snd (FindEntry other presented w)) = stdout w"
  unfolding FindEntry_live[OF f l] FindEntry_absent[OF a]
  by (auto simp: hex_round_trip)

theorem FindEntry_nonce_check_witness:
  "fst (FindEntry 42 ''abababababababababababab'' busy_world) = Inr (Some stored_entry) \<and>
   fst (FindEntry 42 ''abababababababababababac'' busy_world) = Inr None \<and>
   fst (FindEntry 99 ''abababababababababababac'' busy_world) = Inr None"
proof -
  have f: "find (\<lambda>r. ID r = 42) (entries busy_world) = Some stored_entry"
    by (simp add: busy_world_def stored_entry_def)
  have l: "clock busy_world (ticks busy_world) < ExpiresAtUTC stored_entry"
    by (simp add: busy_world_def stored_entry_def)
  have a: "find (\<lambda>r. ID r = 99) (entries busy_world) = None"
    by (simp add: busy_world_def stored_entry_def overdue_entry_def)
  from FindEntry_nonce_check[OF f l a, of "''abababababababababababab''"]
       FindEntry_nonce_check[OF f l a, of "''abababababababababababac''"]
  show ?thesis by (simp add: hex_stored)
qed

section \<open>FindByUserID\<close>

lemma remade_row:
  "SentByUserID r = uid \<Longrightarrow>
   \<lparr>ID = ID r, Name = Name r, SentByUserID = uid, SentToEmail = SentToEmail r,
    Nonce = Nonce r, Value = Value r, InvalidAttempts = InvalidAttempts r,
    CreatedAtUTC = CreatedAtUTC r, ExpiresAtUTC = ExpiresAtUTC r\<rparr> = r"
  by auto

lemma store_FindByUserID_eq:
  "store_FindByUserID uid w =
     Inr (sort_key CreatedAtUTC (filter (\<lambda>r. SentByUserID r = uid) (entries w)))"
proof -
  have "map (\<lambda>r. \<lparr>ID = ID r, Name = Name r, SentByUserID = uid, SentToEmail = SentToEmail r,
          Nonce = Nonce r, Value = Value r, InvalidAttempts = InvalidAttempts r,
          CreatedAtUTC = CreatedAtUTC r, ExpiresAtUTC = ExpiresAtUTC r\<rparr>)
        (sort_key CreatedAtUTC (filter (\<lambda>r. SentByUserID r = uid) (entries w)))
      = map (\<lambda>r. r) (sort_key CreatedAtUTC (filter (\<lambda>r. SentByUserID r = uid) (entries w)))"
    by (rule map_cong) (auto simp: remade_row)
  then show ?thesis by (simp add: store_FindByUserID_def)
qed

lemma FindByUserID_loop_ok:
  "distinct (map ID (filter (\<lambda>r. ExpiresAtUTC r \<le> now) rows)) \<Longrightarrow>
   \<forall>r \<in> set rows. ExpiresAtUTC r \<le> now \<longrightarrow> ID r \<notin> expired_ids w \<Longrightarrow>
   FindByUserID_loop now rows acc w =
     (Inr (acc @ filter (\<lambda>r. now < ExpiresAtUTC r) rows),
      w\<lparr>ticks := ticks w + length (filter (\<lambda>r. ExpiresAtUTC r \<le> now) rows),
        expired_entries := expired_entries w @
          expired_projections (clock w) (ticks w) (filter (\<lambda>r. ExpiresAtUTC r \<le> now) rows),
        entries := filter (\<lambda>r. ID r \<notin> ID ` set (filter (\<lambda>r. ExpiresAtUTC r \<le> now) rows))
                     (entries w)\<rparr>)"
proof (induction rows arbitrary: acc w)
  case Nil
  then show ?case by simp
next
  case (Cons e rows)
  show ?case
  proof (cases "now < ExpiresAtUTC e")
    case True
    with Cons.prems have "distinct (map ID (filter (\<lambda>r. ExpiresAtUTC r \<le> now) rows))"
      "\<forall>r \<in> set rows. ExpiresAtUTC r \<le> now \<longrightarrow> ID r \<notin> expired_ids w" by auto
    from Cons.IH[OF this] True show ?thesis by simp
  next
    case False
    then have x: "ExpiresAtUTC e \<le> now" by simp
    with Cons.prems have n: "ID e \<notin> expired_ids w" by simp
    let ?w1 = "w\<lparr>ticks := Suc (ticks w),
        expired_entries := expired_entries w @
          [\<lparr>ee_EntryID = ID e, ee_Name = Name e, ee_SentByUserID = SentByUserID e,
            ee_SentToEmail = SentToEmail e, ee_TooManyAttempts = False,
            ee_ExpiredAtUTC = clock w (ticks w)\<rparr>],
        entries := filter (\<lambda>r. ID r \<noteq> ID e) (entries w)\<rparr>"
    from Cons.prems x have d: "distinct (map ID (filter (\<lambda>r. ExpiresAtUTC r \<le> now) rows))"
      and ne: "\<forall>r \<in> set rows. ExpiresAtUTC r \<le> now \<longrightarrow> ID r \<noteq> ID e"
      by (auto simp: image_iff)
    from Cons.prems ne have "\<forall>r \<in> set rows. ExpiresAtUTC r \<le> now \<longrightarrow> ID r \<notin> expired_ids ?w1"
      by (auto simp: expired_ids_def)
    from Cons.IH[OF d this, of acc] x n show ?thesis
      by (simp add: expireEntry_ok filter_filter conj_commute cong: conj_cong)
  qed
qed


lemma find_by_ID:
  "distinct (map ID xs) \<Longrightarrow> r \<in> set xs \<Longrightarrow> find (\<lambda>x. ID x = ID r) xs = Some r"
  by (induction xs) (auto simp: image_iff)

lemma distinct_ID_rows:
  "distinct (map ID xs) \<Longrightarrow> distinct (map ID (filter P (sort_key g (filter Q xs))))"
  by (auto simp: distinct_map intro: inj_on_subset)

text \<open>
  C4 (lazy expiry on access). Take a world whose active rows have distinct ids (the
  primary key) and where no row past its deadline has an expired projection yet; \<open>now\<close>
  is the clock reading of the call. \<^verbatim>\<open>FindEntry\<close> on the id of any row with
  \<open>now \<ge> expiresAt\<close> reports not-found, appends the \<^verbatim>\<open>ExpiredEntry\<close> projection with
  \<open>TooManyAttempts = False\<close> and deletes the row. \<^verbatim>\<open>FindByUserID\<close> returns the user's rows
  that have time left, in ascending creation time; it appends one such projection for
  each of the user's rows past the deadline, in the same order, and deletes exactly
  those rows.
\<close>

theorem lazy_expiry_on_access:
  assumes pk: "distinct (map ID (entries w))"
      and np: "\<forall>r \<in> set (entries w). ExpiresAtUTC r \<le> clock w (ticks w) \<longrightarrow> ID r \<notin> expired_ids w"
  shows "(\<forall>r \<in> set (entries w). ExpiresAtUTC r \<le> clock w (ticks w) \<longrightarrow>
            FindEntry (ID r) presented w =
              (Inr None,
               w\<lparr>ticks := Suc (Suc (ticks w)),
                 expired_entries := expired_entries w @
                   expired_projections (clock w) (Suc (ticks w)) [r],
                 entries := filter (\<lambda>x. ID x \<noteq> ID r) (entries w)\<rparr>)) \<and>
         (let now = clock w (ticks w);
              rows = sort_key CreatedAtUTC (filter (\<lambda>r. SentByUserID r = uid) (entries w));
              gone = filter (\<lambda>r. ExpiresAtUTC r \<le> now) rows;
              kept = filter (\<lambda>r. now < ExpiresAtUTC r) rows
          in FindByUserID uid w =
               (Inr kept,
                w\<lparr>ticks := Suc (ticks w) + length gone,
                  expired_entries := expired_entries w @
                    expired_projections (clock w) (Suc (ticks w)) gone,
                  entries := filter (\<lambda>r. ID r \<notin> ID ` set gone) (entries w)\<rparr>) \<and>
             sorted (map CreatedAtUTC kept) \<and>
             set kept = {r \<in> set (entries w). SentByUserID r = uid \<and> now < ExpiresAtUTC r} \<and>
             set gone = {r \<in> set (entries w). SentByUserID r = uid \<and> ExpiresAtUTC r \<le> now} \<and>
             filter (\<lambda>r. ID r \<notin> ID ` set gone) (entries w) =
               filter (\<lambda>r. \<not> (SentByUserID r = uid \<and> ExpiresAtUTC r \<le> now)) (entries w))"
proof (intro conjI ballI impI)
  fix r assume r: "r \<in> set (entries w)" and x: "ExpiresAtUTC r \<le> clock w (ticks w)"
  from np r x have n: "ID r \<notin> expired_ids w" by blast
  from FindEntry_expired[OF find_by_ID[OF pk r] x n]
  show "FindEntry (ID r) presented w =
              (Inr None,
               w\<lparr>ticks := Suc (Suc (ticks w)),
                 expired_entries := expired_entries w @
                   expired_projections (clock w) (Suc (ticks w)) [r],
                 entries := filter (\<lambda>x. ID x \<noteq> ID r) (entries w)\<rparr>)"
    by simp
next
  define now where "now = clock w (ticks w)"
  define rows where "rows = sort_key CreatedAtUTC (filter (\<lambda>r. SentByUserID r = uid) (entries w))"
  define gone where "gone = filter (\<lambda>r. ExpiresAtUTC r \<le> now) rows"
  define kept where "kept = filter (\<lambda>r. now < ExpiresAtUTC r) rows"
  let ?w1 = "w\<lparr>ticks := Suc (ticks w)\<rparr>"
  have d: "distinct (map ID (filter (\<lambda>r. ExpiresAtUTC r \<le> now) rows))"
    unfolding rows_def by (rule distinct_ID_rows[OF pk])
  have n: "\<forall>r \<in> set rows. ExpiresAtUTC r \<le> now \<longrightarrow> ID r \<notin> expired_ids ?w1"
    using np by (auto simp: rows_def now_def expired_ids_def)
  have run: "FindByUserID uid w =
               (Inr kept,
                w\<lparr>ticks := Suc (ticks w) + length gone,
                  expired_entries := expired_entries w @
                    expired_projections (clock w) (Suc (ticks w)) gone,
                  entries := filter (\<lambda>r. ID r \<notin> ID ` set gone) (entries w)\<rparr>)"
    using FindByUserID_loop_ok[OF d n, of "[]"]
    by (simp add: FindByUserID_def store_FindByUserID_eq time_Now_def
        rows_def[symmetric] now_def[symmetric] gone_def[symmetric] kept_def[symmetric])
  have srt: "sorted (map CreatedAtUTC kept)"
    unfolding kept_def rows_def by (simp add: sorted_filter)
  have sk: "set kept = {r \<in> set (entries w). SentByUserID r = uid \<and> now < ExpiresAtUTC r}"
    unfolding kept_def rows_def by auto
  have sg: "set gone = {r \<in> set (entries w). SentByUserID r = uid \<and> ExpiresAtUTC r \<le> now}"
    unfolding gone_def rows_def by auto
  have inj: "inj_on ID (set (entries w))"
    using pk by (simp add: distinct_map)
  have fl: "filter (\<lambda>r. ID r \<notin> ID ` set gone) (entries w) =
               filter (\<lambda>r. \<not> (SentByUserID r = uid \<and> ExpiresAtUTC r \<le> now)) (entries w)"
  proof (rule filter_cong[OF refl])
    fix r assume r: "r \<in> set (entries w)"
    have "ID r \<in> ID ` set gone \<longleftrightarrow> r \<in> set gone"
      using inj r sg by (auto simp: inj_on_def)
    then show "(ID r \<notin> ID ` set gone) = (\<not> (SentByUserID r = uid \<and> ExpiresAtUTC r \<le> now))"
      using r sg by auto
  qed
  from run srt sk sg fl
  show "let now = clock w (ticks w);
              rows = sort_key CreatedAtUTC (filter (\<lambda>r. SentByUserID r = uid) (entries w));
              gone = filter (\<lambda>r. ExpiresAtUTC r \<le> now) rows;
              kept = filter (\<lambda>r. now < ExpiresAtUTC r) rows
          in FindByUserID uid w =
               (Inr kept,
                w\<lparr>ticks := Suc (ticks w) + length gone,
                  expired_entries := expired_entries w @
                    expired_projections (clock w) (Suc (ticks w)) gone,
                  entries := filter (\<lambda>r. ID r \<notin> ID ` set gone) (entries w)\<rparr>) \<and>
             sorted (map CreatedAtUTC kept) \<and>
             set kept = {r \<in> set (entries w). SentByUserID r = uid \<and> now < ExpiresAtUTC r} \<and>
             set gone = {r \<in> set (entries w). SentByUserID r = uid \<and> ExpiresAtUTC r \<le> now} \<and>
             filter (\<lambda>r. ID r \<notin> ID ` set gone) (entries w) =
               filter (\<lambda>r. \<not> (SentByUserID r = uid \<and> ExpiresAtUTC r \<le> now)) (entries w)"
    unfolding Let_def now_def[symmetric] rows_def[symmetric] gone_def[symmetric] kept_def[symmetric]
    by blast
qed

lemma busy_fields:
  "entries busy_world = [stored_entry, overdue_entry]"
  "claimed_entries busy_world = []"
  "expired_entries busy_world = []"
  "stdout busy_world = []"
  "clock busy_world n = 1000 + int n"
  "ticks busy_world = 0"
  by (simp_all add: busy_world_def)

theorem lazy_expiry_on_access_witness:
  "FindEntry 43 ''0102030405060708090a0b0c'' busy_world =
     (Inr None,
      busy_world\<lparr>ticks := 2,
        expired_entries := [\<lparr>ee_EntryID = 43, ee_Name = ''old code'', ee_SentByUserID = 7,
           ee_SentToEmail = ''eve@example.org'', ee_TooManyAttempts = False,
           ee_ExpiredAtUTC = 1001\<rparr>],
        entries := [stored_entry]\<rparr>) \<and>
   FindByUserID 7 busy_world =
     (Inr [stored_entry],
      busy_world\<lparr>ticks := 2,
        expired_entries := [\<lparr>ee_EntryID = 43, ee_Name = ''old code'', ee_SentByUserID = 7,
           ee_SentToEmail = ''eve@example.org'', ee_TooManyAttempts = False,
           ee_ExpiredAtUTC = 1001\<rparr>],
        entries := [stored_entry]\<rparr>)"
proof -
  have pk: "distinct (map ID (entries busy_world))"
    by (simp add: busy_world_def stored_entry_def overdue_entry_def)
  have np: "\<forall>r \<in> set (entries busy_world).
      ExpiresAtUTC r \<le> clock busy_world (ticks busy_world) \<longrightarrow> ID r \<notin> expired_ids busy_world"
    by (simp add: busy_world_def expired_ids_def)
  have m: "overdue_entry \<in> set (entries busy_world)"
    "ExpiresAtUTC overdue_entry \<le> clock busy_world (ticks busy_world)"
    by (simp_all add: busy_world_def overdue_entry_def)
  note t = lazy_expiry_on_access[OF pk np, of "''0102030405060708090a0b0c''" 7]
  from t m have a: "FindEntry (ID overdue_entry) ''0102030405060708090a0b0c'' busy_world =
              (Inr None,
               busy_world\<lparr>ticks := Suc (Suc (ticks busy_world)),
                 expired_entries := expired_entries busy_world @
                   expired_projections (clock busy_world) (Suc (ticks busy_world)) [overdue_entry],
                 entries := filter (\<lambda>x. ID x \<noteq> ID overdue_entry) (entries busy_world)\<rparr>)"
    by blast
  have a': "FindEntry 43 ''0102030405060708090a0b0c'' busy_world =
     (Inr None,
      busy_world\<lparr>ticks := 2,
        expired_entries := [\<lparr>ee_EntryID = 43, ee_Name = ''old code'', ee_SentByUserID = 7,
           ee_SentToEmail = ''eve@example.org'', ee_TooManyAttempts = False,
           ee_ExpiredAtUTC = 1001\<rparr>],
        entries := [stored_entry]\<rparr>)"
    using a by (simp add: busy_fields stored_entry_def overdue_entry_def)
  have rows: "sort_key CreatedAtUTC (filter (\<lambda>r. SentByUserID r = 7) [stored_entry, overdue_entry])
      = [overdue_entry, stored_entry]"
    by (simp add: stored_entry_def overdue_entry_def)
  have gone: "filter (\<lambda>r. ExpiresAtUTC r \<le> 1000 + int 0) [overdue_entry, stored_entry] = [overdue_entry]"
    by (simp add: stored_entry_def overdue_entry_def)
  have kept: "filter (\<lambda>r. 1000 + int 0 < ExpiresAtUTC r) [overdue_entry, stored_entry] = [stored_entry]"
    by (simp add: stored_entry_def overdue_entry_def)
  have left: "filter (\<lambda>r. ID r \<notin> ID ` set [overdue_entry]) [stored_entry, overdue_entry] = [stored_entry]"
    by (simp add: stored_entry_def overdue_entry_def)
  note b0 = t[unfolded Let_def, THEN conjunct2, THEN conjunct1]
  have b: "FindByUserID 7 busy_world =
     (Inr [stored_entry],
      busy_world\<lparr>ticks := 2,
        expired_entries := [\<lparr>ee_EntryID = 43, ee_Name = ''old code'', ee_SentByUserID = 7,
           ee_SentToEmail = ''eve@example.org'', ee_TooManyAttempts = False,
           ee_ExpiredAtUTC = 1001\<rparr>],
        entries := [stored_entry]\<rparr>)"
    using b0 unfolding busy_fields rows gone kept left
    by (simp add: busy_fields overdue_entry_def)
  from a' b show ?thesis by simp
qed




lemma find_map_bump:
  "find (\<lambda>r. ID r = eid) (map (\<lambda>r. if ID r = eid then r\<lparr>InvalidAttempts := InvalidAttempts r + 1\<rparr> else r) xs)
     = map_option (\<lambda>r. r\<lparr>InvalidAttempts := InvalidAttempts r + 1\<rparr>) (find (\<lambda>r. ID r = eid) xs)"
  by (induction xs) auto

lemma filter_map_bump:
  "filter (\<lambda>r. ID r \<noteq> eid) (map (\<lambda>r. if ID r = eid then r\<lparr>InvalidAttempts := InvalidAttempts r + 1\<rparr> else r) xs)
     = filter (\<lambda>r. ID r \<noteq> eid) xs"
  by (induction xs) auto

lemma FindEntry_SomeD:
  assumes "FindEntry eid presented w = (Inr (Some e), w1)"
  shows "find (\<lambda>r. ID r = eid) (entries w) = Some e \<and> clock w (ticks w) < ExpiresAtUTC e \<and>
         presented = hex_EncodeToString (Nonce e) \<and> w1 = w\<lparr>ticks := Suc (ticks w)\<rparr>"
proof (cases "find (\<lambda>r. ID r = eid) (entries w)")
  case None
  with assms show ?thesis by (simp add: FindEntry_absent)
next
  case (Some r)
  show ?thesis
  proof (cases "clock w (ticks w) < ExpiresAtUTC r")
    case True
    from assms show ?thesis
      unfolding FindEntry_live[OF Some True] using Some True by (auto split: if_splits)
  next
    case False
    with assms Some show ?thesis
      by (auto simp: FindEntry_def store_Find_Some time_Now_def split: prod.splits sum.splits)
  qed
qed

lemma store_IncrementInvalidAttempts_found:
  "find (\<lambda>r. ID r = eid) (entries w) = Some e \<Longrightarrow>
   store_IncrementInvalidAttempts eid w =
     (Inr (InvalidAttempts e + 1),
      w\<lparr>entries := map (\<lambda>r. if ID r = eid then r\<lparr>InvalidAttempts := InvalidAttempts r + 1\<rparr> else r)
                      (entries w)\<rparr>)"
  by (simp add: store_IncrementInvalidAttempts_def Let_def find_map_bump)



lemma decrypt_no_panic:
  "length n = 12 \<Longrightarrow> decrypt c s v n secret \<noteq> Inl (Panic p)"
  by (simp add: decrypt_def Let_def split: option.splits)

lemma DecryptEntry_wrong:
  assumes f: "find (\<lambda>r. ID r = dq_ID req) (entries w) = Some e"
      and l: "clock w (ticks w) < ExpiresAtUTC e"
      and n: "dq_Nonce req = hex_EncodeToString (Nonce e)"
      and d: "decrypt c s (Value e) (Nonce e) (dq_Secret req) = Inl err"
      and q: "\<forall>p. err \<noteq> Panic p"
      and np: "dq_ID req \<notin> expired_ids w"
  shows "DecryptEntry c s req w =
     (if maxAttempts s \<le> InvalidAttempts e + 1 then
        (Inr \<lparr>dr_Success = False,
              dr_Errors = [''Invalid secret.'',
                ''Too many attempts have been made, and the entry has been expired.''],
              dr_Expired = True, dr_Entry = None\<rparr>,
         w\<lparr>ticks := Suc (Suc (ticks w)),
           expired_entries := expired_entries w @
             [\<lparr>ee_EntryID = dq_ID req, ee_Name = Name e, ee_SentByUserID = SentByUserID e,
               ee_SentToEmail = SentToEmail e, ee_TooManyAttempts = True,
               ee_ExpiredAtUTC = clock w (Suc (ticks w))\<rparr>],
           entries := filter (\<lambda>r. ID r \<noteq> dq_ID req) (entries w)\<rparr>)
      else
        (Inr \<lparr>dr_Success = False, dr_Errors = [''Invalid secret.''], dr_Expired = False,
              dr_Entry = None\<rparr>,
         w\<lparr>ticks := Suc (ticks w),
           entries := map (\<lambda>r. if ID r = dq_ID req
                                then r\<lparr>InvalidAttempts := InvalidAttempts r + 1\<rparr> else r)
                        (entries w)\<rparr>))"
proof -
  from f have id: "ID e = dq_ID req" by (auto simp: find_Some_iff)
  let ?w1 = "w\<lparr>ticks := Suc (ticks w)\<rparr>"
  have f1: "find (\<lambda>r. ID r = dq_ID req) (entries ?w1) = Some e" using f by simp
  let ?w2 = "?w1\<lparr>entries := map (\<lambda>r. if ID r = dq_ID req
                                then r\<lparr>InvalidAttempts := InvalidAttempts r + 1\<rparr> else r)
                        (entries ?w1)\<rparr>"
  have inc: "store_IncrementInvalidAttempts (dq_ID req) ?w1 = (Inr (InvalidAttempts e + 1), ?w2)"
    by (rule store_IncrementInvalidAttempts_found[OF f1])
  have "ID e \<notin> expired_ids ?w2" using np id by (simp add: expired_ids_def)
  note ex = expireEntry_ok[OF this, of True, simplified]
  show ?thesis
    using d n id q
    by (simp add: DecryptEntry_def FindEntry_live[OF f l] incrementInvalidAttempts_def inc ex
        filter_map_bump split: error.splits)
qed



lemma toy_sha_length: "length (toy_sha x) = 32"
  by (simp add: toy_sha_def)



lemma toy_fields:
  "sha256_Sum256 toy_crypto = toy_sha" "gcm_Seal toy_crypto = toy_Seal"
  "gcm_Open toy_crypto = toy_Open"
  by (simp_all add: toy_crypto_def)



section \<open>DecryptEntry\<close>

text \<open>
  C2 (attempt accounting). Let \<^verbatim>\<open>FindEntry\<close> find the entry \<open>e\<close> for the request, let
  stored nonce have its twelve bytes, let opening \<open>e\<close>'s value under the key of the
  presented phrase fail (which is how a wrong phrase shows), and let the id have no
  expired projection yet. Then the store's
  increment returns the old count plus one. If that count is at least \<open>maxAttempts\<close>,
  \<^verbatim>\<open>DecryptEntry\<close> answers with the invalid-secret and the too-many-attempts messages,
  \<open>Expired\<close> set and no entry, the projection with \<open>TooManyAttempts = True\<close> is appended
  and the active row deleted. Otherwise it answers with the invalid-secret message
  alone, \<open>Expired\<close> unset and no entry, the projections are untouched, and the row stays
  active with its counter raised by one.
\<close>

theorem wrong_secret_attempt_accounting:
  assumes found: "FindEntry (dq_ID req) (dq_Nonce req) w = (Inr (Some e), w1)"
      and len: "length (Nonce e) = 12"
      and wrong: "decrypt c s (Value e) (Nonce e) (dq_Secret req) = Inl err"
      and np: "dq_ID req \<notin> expired_ids w"
  shows "fst (store_IncrementInvalidAttempts (ID e) w1) = Inr (InvalidAttempts e + 1) \<and>
         (if maxAttempts s \<le> InvalidAttempts e + 1 then
            \<exists>w2. DecryptEntry c s req w =
                   (Inr \<lparr>dr_Success = False,
                         dr_Errors = [''Invalid secret.'',
                           ''Too many attempts have been made, and the entry has been expired.''],
                         dr_Expired = True, dr_Entry = None\<rparr>, w2) \<and>
                 expired_entries w2 = expired_entries w @
                   [\<lparr>ee_EntryID = dq_ID req, ee_Name = Name e, ee_SentByUserID = SentByUserID e,
                     ee_SentToEmail = SentToEmail e, ee_TooManyAttempts = True,
                     ee_ExpiredAtUTC = clock w (Suc (ticks w))\<rparr>] \<and>
                 claimed_entries w2 = claimed_entries w \<and>
                 entries w2 = filter (\<lambda>r. ID r \<noteq> dq_ID req) (entries w) \<and>
                 dq_ID req \<notin> active_ids w2
          else
            \<exists>w2. DecryptEntry c s req w =
                   (Inr \<lparr>dr_Success = False, dr_Errors = [''Invalid secret.''],
                         dr_Expired = False, dr_Entry = None\<rparr>, w2) \<and>
                 expired_entries w2 = expired_entries w \<and>
                 claimed_entries w2 = claimed_entries w \<and>
                 entries w2 = map (\<lambda>r. if ID r = dq_ID req
                                then r\<lparr>InvalidAttempts := InvalidAttempts r + 1\<rparr> else r)
                        (entries w) \<and>
                 find (\<lambda>r. ID r = dq_ID req) (entries w2) =
                   Some (e\<lparr>InvalidAttempts := InvalidAttempts e + 1\<rparr>))"
proof -
  from FindEntry_SomeD[OF found]
  have f: "find (\<lambda>r. ID r = dq_ID req) (entries w) = Some e"
    and l: "clock w (ticks w) < ExpiresAtUTC e"
    and n: "dq_Nonce req = hex_EncodeToString (Nonce e)"
    and w1: "w1 = w\<lparr>ticks := Suc (ticks w)\<rparr>" by simp_all
  from f have id: "ID e = dq_ID req" by (auto simp: find_Some_iff)
  have f1: "find (\<lambda>r. ID r = dq_ID req) (entries w1) = Some e" using f w1 by simp
  have a: "fst (store_IncrementInvalidAttempts (ID e) w1) = Inr (InvalidAttempts e + 1)"
    unfolding id store_IncrementInvalidAttempts_found[OF f1] by simp
  from wrong decrypt_no_panic[OF len] have q: "\<forall>p. err \<noteq> Panic p" by metis
  note d = DecryptEntry_wrong[OF f l n wrong q np]
  show ?thesis
  proof (cases "maxAttempts s \<le> InvalidAttempts e + 1")
    case True
    with d a show ?thesis by (auto simp: active_ids_def)
  next
    case False
    with d a f show ?thesis by (simp add: find_map_bump)
  qed
qed

theorem wrong_secret_attempt_accounting_witness:
  "fst (DecryptEntry toy_crypto example_service
     \<lparr>dq_ID = 42, dq_Nonce = ''abababababababababababab'', dq_Secret = ''guess''\<rparr> busy_world) =
     Inr \<lparr>dr_Success = False, dr_Errors = [''Invalid secret.''], dr_Expired = False,
           dr_Entry = None\<rparr> \<and>
   entries (snd (DecryptEntry toy_crypto example_service
     \<lparr>dq_ID = 42, dq_Nonce = ''abababababababababababab'', dq_Secret = ''guess''\<rparr> busy_world)) =
     [stored_entry\<lparr>InvalidAttempts := 1\<rparr>, overdue_entry] \<and>
   fst (DecryptEntry toy_crypto strict_service
     \<lparr>dq_ID = 42, dq_Nonce = ''abababababababababababab'', dq_Secret = ''guess''\<rparr> busy_world) =
     Inr \<lparr>dr_Success = False,
           dr_Errors = [''Invalid secret.'',
             ''Too many attempts have been made, and the entry has been expired.''],
           dr_Expired = True, dr_Entry = None\<rparr> \<and>
   entries (snd (DecryptEntry toy_crypto strict_service
     \<lparr>dq_ID = 42, dq_Nonce = ''abababababababababababab'', dq_Secret = ''guess''\<rparr> busy_world)) =
     [overdue_entry] \<and>
   expired_entries (snd (DecryptEntry toy_crypto strict_service
     \<lparr>dq_ID = 42, dq_Nonce = ''abababababababababababab'', dq_Secret = ''guess''\<rparr> busy_world)) =
     [\<lparr>ee_EntryID = 42, ee_Name = ''door code'', ee_SentByUserID = 7,
       ee_SentToEmail = ''bob@example.org'', ee_TooManyAttempts = True, ee_ExpiredAtUTC = 1001\<rparr>]"
proof -
  let ?req = "\<lparr>dq_ID = 42, dq_Nonce = ''abababababababababababab'', dq_Secret = ''guess''\<rparr>"
  have f: "find (\<lambda>r. ID r = 42) (entries busy_world) = Some stored_entry"
    by (simp add: busy_world_def stored_entry_def)
  have l: "clock busy_world (ticks busy_world) < ExpiresAtUTC stored_entry"
    by (simp add: busy_world_def stored_entry_def)
  have found: "FindEntry (dq_ID ?req) (dq_Nonce ?req) busy_world =
      (Inr (Some stored_entry), busy_world\<lparr>ticks := Suc (ticks busy_world)\<rparr>)"
    by (simp add: FindEntry_live[OF f l] hex_stored)
  have wrong: "decrypt toy_crypto sv (Value stored_entry) (Nonce stored_entry) (dq_Secret ?req)
      = Inl ErrOpen" for sv
    by (simp add: decrypt_def toy_fields toy_sha_length toy_Open_def stored_entry_def)
  have np: "dq_ID ?req \<notin> expired_ids busy_world"
    by (simp add: expired_ids_def busy_fields)
  have len: "length (Nonce stored_entry) = 12"
    by (simp add: stored_entry_def)
  have m: "maxAttempts example_service = 3" "maxAttempts strict_service = 1"
    by (simp_all add: example_service_def strict_service_def)
  from wrong_secret_attempt_accounting[OF found len wrong np, of example_service]
       wrong_secret_attempt_accounting[OF found len wrong np, of strict_service]
  show ?thesis
    by (auto simp: m busy_fields stored_entry_def overdue_entry_def)
qed










section \<open>The token manager\<close>

lemma Unix_mono: "a \<le> b \<Longrightarrow> Unix a \<le> Unix b"
  by (simp add: Unix_def zdiv_mono1)

lemma AccessToken_eq:
  "AccessToken lib m userID w =
     (Inr \<lparr>Token = issued_token lib m userID (clock w (ticks w)),
           Expires = Unix (clock w (ticks w) + accessTokenLifetime m)\<rparr>,
      w\<lparr>ticks := Suc (ticks w)\<rparr>)"
  by (simp add: AccessToken_def time_Now_def SignedString_def issued_token_def issued_claims_def
      SigningMethodHS256_def Let_def)

lemma issued_token_nonempty: "issued_token lib m userID now \<noteq> []"
  by (simp add: issued_token_def)

lemma issued_claims_valid:
  "now \<le> t \<Longrightarrow> t < now + accessTokenLifetime m \<Longrightarrow>
   MapClaims_Valid (claims_of (issued_claims lib m userID now)) (Unix t) = None"
proof -
  assume a: "now \<le> t" and b: "t < now + accessTokenLifetime m"
  from a have 1: "Unix now \<le> Unix t" by (rule Unix_mono)
  from b have 2: "Unix t \<le> Unix (now + accessTokenLifetime m)" by (simp add: Unix_mono)
  from 1 2 show ?thesis
    by (simp add: MapClaims_Valid_def verifyNbf_def verifyIat_def verifyExp_def claims_of_def
        issued_claims_def)
qed

text \<open>
  C7 (access-token round trip). Let the library decode the issued token to the method,
  claims, signing string and signature it was built from, let the HMAC verification
  accept a signature made under the same key, and let the uuid library parse back what
  it printed for the user (a non-empty string). Then \<^verbatim>\<open>AccessToken\<close> returns the token
  signed over the claims \<open>jti\<close> = the user's id in text, \<open>iat\<close> = now in Unix seconds and
  \<open>exp\<close> = now + lifetime in Unix seconds, together with that expiry; and \<^verbatim>\<open>Verify\<close> of
  that token under the same key, at any clock reading from the issue instant up to but
  excluding now + lifetime, returns the user's id. Such a reading exists only when the
  lifetime is positive.
\<close>

theorem access_token_round_trip:
  assumes codec: "\<exists>t. ParseUnverified lib (issued_token lib m userID (clock w (ticks w))) = Inr t \<and>
             Method t = SigningMethodHS256 \<and>
             Claims t = claims_of (issued_claims lib m userID (clock w (ticks w))) \<and>
             SigningString_of t =
               SigningString lib SigningMethodHS256 (issued_claims lib m userID (clock w (ticks w))) \<and>
             Signature t = hmac_Sign lib ''HS256'' (SigningString_of t) (privateKey m)"
      and mac: "\<forall>sstr. hmac_Verify lib ''HS256'' sstr (hmac_Sign lib ''HS256'' sstr (privateKey m))
                  (privateKey m)"
      and uuid: "uuid_String lib userID \<noteq> []"
                "uuid_Parse lib (uuid_String lib userID) = Some userID"
      and later: "clock w (ticks w) \<le> clock w' (ticks w')"
      and before: "clock w' (ticks w') < clock w (ticks w) + accessTokenLifetime m"
  shows "AccessToken lib m userID w =
           (Inr \<lparr>Token = issued_token lib m userID (clock w (ticks w)),
                 Expires = Unix (clock w (ticks w) + accessTokenLifetime m)\<rparr>,
            w\<lparr>ticks := Suc (ticks w)\<rparr>) \<and>
         Id (issued_claims lib m userID (clock w (ticks w))) = uuid_String lib userID \<and>
         IssuedAt (issued_claims lib m userID (clock w (ticks w))) = Unix (clock w (ticks w)) \<and>
         ExpiresAt (issued_claims lib m userID (clock w (ticks w))) =
           Unix (clock w (ticks w) + accessTokenLifetime m) \<and>
         Verify lib m (issued_token lib m userID (clock w (ticks w))) w' =
           (Inr userID, w'\<lparr>ticks := Suc (ticks w')\<rparr>)"
proof -
  from codec obtain t where
    p: "ParseUnverified lib (issued_token lib m userID (clock w (ticks w))) = Inr t"
    and t: "Method t = SigningMethodHS256"
      "Claims t = claims_of (issued_claims lib m userID (clock w (ticks w)))"
      "Signature t = hmac_Sign lib ''HS256'' (SigningString_of t) (privateKey m)"
    by blast
  have k: "Verify_keyFunc m t = Inr (privateKey m)"
    by (simp add: Verify_keyFunc_def t SigningMethodHS256_def)
  have v: "hmac_Verify lib (alg_name (Method t)) (SigningString_of t) (Signature t) (privateKey m)"
    using mac by (simp add: t SigningMethodHS256_def)
  have c: "MapClaims_Valid (Claims t) (Unix (clock w' (ticks w'))) = None"
    unfolding t by (rule issued_claims_valid[OF later before])
  have parse: "jwt_Parse lib (issued_token lib m userID (clock w (ticks w))) (Verify_keyFunc m) w' =
      (Inr (t\<lparr>Valid := True\<rparr>), w'\<lparr>ticks := Suc (ticks w')\<rparr>)"
    by (simp add: jwt_Parse_def p k v c time_Now_def)
  have j: "Claims t ''jti'' = Some (JString (uuid_String lib userID))"
    using uuid(1) by (simp add: t claims_of_def issued_claims_def)
  have "Verify lib m (issued_token lib m userID (clock w (ticks w))) w' =
           (Inr userID, w'\<lparr>ticks := Suc (ticks w')\<rparr>)"
    by (simp add: Verify_def issued_token_nonempty parse j uuid(2))
  then show ?thesis
    by (simp add: AccessToken_eq issued_claims_def)
qed

lemma toy_libs_fields:
  "SigningString toy_libs meth c = alg_name meth @ '':'' @ Id c"
  "hmac_Sign toy_libs alg sstr key = key"
  "hmac_Verify toy_libs alg sstr sig key = (sig = key)"
  "ParseUnverified toy_libs = toy_ParseUnverified"
  "uuid_String toy_libs u = (if u = 7 then ''seven'' else ''other'')"
  "uuid_Parse toy_libs s = (if s = ''seven'' then Some 7 else None)"
  by (simp_all add: toy_libs_def)

lemma token_world_fields:
  "clock token_world n = 5000000000 + int n" "ticks token_world = 0"
  by (simp_all add: token_world_def)

lemma example_manager_fields:
  "privateKey example_manager = ''signing key''"
  "accessTokenLifetime example_manager = 900000000000"
  by (simp_all add: example_manager_def)

lemma example_issued_claims:
  "issued_claims toy_libs example_manager 7 (clock token_world (ticks token_world)) =
     \<lparr>ExpiresAt = 905, Id = ''seven'', IssuedAt = 5\<rparr>"
  by (simp add: issued_claims_def toy_libs_fields token_world_fields example_manager_fields
      Unix_def)

lemma example_issued_token:
  "issued_token toy_libs example_manager 7 (clock token_world (ticks token_world)) =
     ''HS256:seven.signing key''"
  by (simp add: issued_token_def example_issued_claims toy_libs_fields example_manager_fields
      SigningMethodHS256_def)

theorem access_token_round_trip_witness:
  "AccessToken toy_libs example_manager 7 token_world =
     (Inr \<lparr>Token = ''HS256:seven.signing key'', Expires = 905\<rparr>,
      token_world\<lparr>ticks := Suc 0\<rparr>) \<and>
   Verify toy_libs example_manager ''HS256:seven.signing key'' (token_world\<lparr>ticks := 1000\<rparr>) =
     (Inr 7, token_world\<lparr>ticks := Suc 1000\<rparr>)"
proof -
  let ?w' = "token_world\<lparr>ticks := 1000\<rparr>"
  have codec: "\<exists>t. ParseUnverified toy_libs
               (issued_token toy_libs example_manager 7 (clock token_world (ticks token_world))) = Inr t \<and>
             Method t = SigningMethodHS256 \<and>
             Claims t = claims_of (issued_claims toy_libs example_manager 7
                 (clock token_world (ticks token_world))) \<and>
             SigningString_of t =
               SigningString toy_libs SigningMethodHS256 (issued_claims toy_libs example_manager 7
                 (clock token_world (ticks token_world))) \<and>
             Signature t = hmac_Sign toy_libs ''HS256'' (SigningString_of t) (privateKey example_manager)"
    unfolding example_issued_token example_issued_claims
    by (simp add: toy_libs_fields toy_ParseUnverified_def toy_token_def example_manager_fields
        SigningMethodHS256_def)
  have mac: "\<forall>sstr. hmac_Verify toy_libs ''HS256'' sstr
      (hmac_Sign toy_libs ''HS256'' sstr (privateKey example_manager)) (privateKey example_manager)"
    by (simp add: toy_libs_fields)
  have uuid: "uuid_String toy_libs 7 \<noteq> []" "uuid_Parse toy_libs (uuid_String toy_libs 7) = Some 7"
    by (simp_all add: toy_libs_fields)
  have later: "clock token_world (ticks token_world) \<le> clock ?w' (ticks ?w')"
    by (simp add: token_world_def)
  have before: "clock ?w' (ticks ?w')
      < clock token_world (ticks token_world) + accessTokenLifetime example_manager"
    by (simp add: token_world_def example_manager_def)
  from access_token_round_trip[OF codec mac uuid later before]
  show ?thesis
    unfolding example_issued_token
    by (simp add: token_world_fields example_manager_fields Unix_def)
qed


lemma Verify_undecodable:
  "token \<noteq> [] \<Longrightarrow> ParseUnverified lib token = Inl msg \<Longrightarrow>
   Verify lib m token w = (Inl (unauthorized msg), w)"
  by (simp add: Verify_def jwt_Parse_def unauthorized_def)













section \<open>Consistent worlds\<close>

text \<open>
  The theorems above ask of an active row that it has no projection yet, and of the
  table that its ids are distinct. Both hold in every world the service can reach from
  an empty store: consistency is kept by every operation, provided \<^verbatim>\<open>CreateEntry\<close> draws
  an identifier that no projection holds.
\<close>

lemma consistent_ticks [simp]: "consistent (w\<lparr>ticks := n\<rparr>) = consistent w"
  by (simp add: consistent_def claimed_ids_def expired_ids_def)

lemma consistent_expired:
  "consistent w \<Longrightarrow>
   consistent (w\<lparr>ticks := n, expired_entries := expired_entries w @ [ee],
                entries := filter (\<lambda>r. ID r \<noteq> ee_EntryID ee) (entries w)\<rparr>)"
  by (simp add: consistent_def claimed_ids_def expired_ids_def distinct_map_filter)

lemma consistent_claimed:
  "consistent w \<Longrightarrow>
   consistent (w\<lparr>ticks := n, claimed_entries := claimed_entries w @ [ce],
                entries := filter (\<lambda>r. ID r \<noteq> ce_EntryID ce) (entries w)\<rparr>)"
  by (simp add: consistent_def claimed_ids_def expired_ids_def distinct_map_filter)

lemma map_ID_bump:
  "map ID (map (\<lambda>r. if ID r = eid then r\<lparr>InvalidAttempts := InvalidAttempts r + 1\<rparr> else r) xs)
     = map ID xs"
  by (induction xs) auto

lemma consistent_bumped:
  "consistent w \<Longrightarrow>
   consistent (w\<lparr>ticks := n,
     entries := map (\<lambda>r. if ID r = eid then r\<lparr>InvalidAttempts := InvalidAttempts r + 1\<rparr> else r)
                  (entries w)\<rparr>)"
  by (auto simp: consistent_def claimed_ids_def expired_ids_def map_ID_bump simp del: map_map)

lemma consistent_no_projection:
  "consistent w \<Longrightarrow> find (\<lambda>r. ID r = eid) (entries w) = Some r \<Longrightarrow>
   eid \<notin> claimed_ids w \<and> eid \<notin> expired_ids w"
proof -
  assume c: "consistent w" and f: "find (\<lambda>r. ID r = eid) (entries w) = Some r"
  from f have "r \<in> set (entries w)" "ID r = eid"
    by (auto simp: find_Some_iff)
  with c show ?thesis by (auto simp: consistent_def)
qed

lemma FindEntry_consistent: "consistent w \<Longrightarrow> consistent (snd (FindEntry eid presented w))"
proof -
  assume c: "consistent w"
  show ?thesis
  proof (cases "find (\<lambda>r. ID r = eid) (entries w)")
    case None
    with c show ?thesis by (simp add: FindEntry_absent)
  next
    case (Some r)
    show ?thesis
    proof (cases "clock w (ticks w) < ExpiresAtUTC r")
      case True
      with c show ?thesis by (simp add: FindEntry_live[OF Some True])
    next
      case False
      then have x: "ExpiresAtUTC r \<le> clock w (ticks w)" by simp
      from consistent_no_projection[OF c Some] have n: "eid \<notin> expired_ids w" by simp
      from consistent_expired[OF c, where n = "Suc (Suc (ticks w))" and ee =
          "\<lparr>ee_EntryID = eid, ee_Name = Name r, ee_SentByUserID = SentByUserID r,
            ee_SentToEmail = SentToEmail r, ee_TooManyAttempts = False,
            ee_ExpiredAtUTC = clock w (Suc (ticks w))\<rparr>"]
      show ?thesis by (simp add: FindEntry_expired[OF Some x n])
    qed
  qed
qed


lemma expireEntry_consistent: "consistent w \<Longrightarrow> consistent (snd (expireEntry e b w))"
proof (cases "ID e \<in> expired_ids w")
  case True
  assume "consistent w"
  with True show ?thesis by (simp add: expireEntry_dup)
next
  case False
  assume c: "consistent w"
  from consistent_expired[OF c, where n = "Suc (ticks w)" and ee =
      "\<lparr>ee_EntryID = ID e, ee_Name = Name e, ee_SentByUserID = SentByUserID e,
        ee_SentToEmail = SentToEmail e, ee_TooManyAttempts = b,
        ee_ExpiredAtUTC = clock w (ticks w)\<rparr>"]
  show ?thesis by (simp add: expireEntry_ok[OF False])
qed

lemma claimEntry_consistent: "consistent w \<Longrightarrow> consistent (snd (claimEntry e w))"
proof (cases "ID e \<in> claimed_ids w")
  case True
  assume "consistent w"
  with True show ?thesis by (simp add: claimEntry_dup)
next
  case False
  assume c: "consistent w"
  from consistent_claimed[OF c, where n = "Suc (ticks w)" and ce =
      "\<lparr>ce_EntryID = ID e, ce_Name = Name e, ce_SentByUserID = SentByUserID e,
        ce_SentToEmail = SentToEmail e, ce_ClaimedAtUTC = clock w (ticks w)\<rparr>"]
  show ?thesis by (simp add: claimEntry_ok[OF False])
qed

lemma store_IncrementInvalidAttempts_consistent:
  "consistent w \<Longrightarrow> consistent (snd (store_IncrementInvalidAttempts eid w))"
proof -
  assume c: "consistent w"
  from consistent_bumped[OF c, where n = "ticks w" and eid = eid] show ?thesis
    by (simp add: store_IncrementInvalidAttempts_def Let_def split: option.splits)
qed

lemma incrementInvalidAttempts_consistent:
  assumes c: "consistent w"
  shows "consistent (snd (incrementInvalidAttempts s e w))"
proof (cases "store_IncrementInvalidAttempts (ID e) w")
  case (Pair r w1)
  from store_IncrementInvalidAttempts_consistent[OF c, of "ID e"] Pair
  have c1: "consistent w1" by simp
  show ?thesis
  proof (cases r)
    case (Inl err)
    with Pair c1 show ?thesis by (simp add: incrementInvalidAttempts_def)
  next
    case (Inr attempts)
    from expireEntry_consistent[OF c1, of e True] Pair Inr c1 show ?thesis
      by (auto simp: incrementInvalidAttempts_def split: prod.splits sum.splits)
  qed
qed

lemma DecryptEntry_consistent:
  assumes c: "consistent w"
  shows "consistent (snd (DecryptEntry c' s req w))"
proof (cases "FindEntry (dq_ID req) (dq_Nonce req) w")
  case (Pair r w1)
  from FindEntry_consistent[OF c, of "dq_ID req" "dq_Nonce req"] Pair
  have c1: "consistent w1" by simp
  show ?thesis
  proof (cases r)
    case (Inl err)
    with Pair c1 show ?thesis by (simp add: DecryptEntry_def)
  next
    case (Inr found)
    show ?thesis
    proof (cases found)
      case None
      with Pair Inr c1 show ?thesis by (simp add: DecryptEntry_def)
    next
      case (Some entry)
      from claimEntry_consistent[OF c1, of entry]
           incrementInvalidAttempts_consistent[OF c1, of s entry]
           Pair Inr Some c1
      show ?thesis
        by (auto simp: DecryptEntry_def split: prod.splits sum.splits option.splits error.splits)
    qed
  qed
qed

lemma FindByUserID_loop_consistent:
  "consistent w \<Longrightarrow> consistent (snd (FindByUserID_loop now rows acc w))"
proof (induction rows arbitrary: acc w)
  case Nil
  then show ?case by simp
next
  case (Cons e rows)
  show ?case
  proof (cases "now < ExpiresAtUTC e")
    case True
    with Cons show ?thesis by simp
  next
    case False
    from expireEntry_consistent[OF Cons.prems, of e False]
    have "consistent (snd (expireEntry e False w))" .
    with False Cons.IH show ?thesis
      by (auto split: prod.splits sum.splits)
  qed
qed

lemma FindByUserID_consistent: "consistent w \<Longrightarrow> consistent (snd (FindByUserID uid w))"
  by (simp add: FindByUserID_def store_FindByUserID_eq time_Now_def FindByUserID_loop_consistent)

lemma CreateEntry_consistent:
  assumes c: "consistent w"
      and fresh: "new_id \<notin> claimed_ids w" "new_id \<notin> expired_ids w"
  shows "consistent (snd (CreateEntry c' s req rnd new_id w))"
  using c fresh
  by (auto simp: CreateEntry_def Let_def time_Now_def store_Create_def SendEntry_def
      consistent_def claimed_ids_def expired_ids_def image_iff split: sum.splits)

lemma example_world_consistent: "consistent example_world"
  by (simp add: consistent_def example_world_def)

lemma consistent_hypotheses:
  "consistent w \<Longrightarrow>
   distinct (map ID (entries w)) \<and>
   (\<forall>r \<in> set (entries w). ID r \<notin> claimed_ids w \<and> ID r \<notin> expired_ids w)"
  by (simp add: consistent_def)

end
